theory Spec2Isabelle
  imports Main
begin

section \<open>Data model of the cardano-node supervisor (class CardanoNode)\<close>

text \<open>
  Modelled from the spec: the enumeration \<open>CardanoNodeStates\<close> is imported by the source
  from \<^verbatim>\<open>common/types/cardano-node.types\<close>; its variants are the eleven lifecycle states
  the specification lists.
\<close>

datatype CardanoNodeState =
    STOPPED | STARTING | RUNNING | EXITING | STOPPING | UPDATING | UPDATED
  | CRASHED | ERRORED | UNRECOVERABLE | UPDATE_FAILED

record CardanoNodeConfig =
  nodePath :: string
  logFilePath :: string
  tlsPath :: string
  nodeArgs :: "string list"
  startupTimeout :: nat
  startupMaxRetries :: nat
  shutdownTimeout :: nat
  killTimeout :: nat
  updateTimeout :: nat

record TlsConfig =
  ca :: string
  key :: string
  cert :: string
  hostname :: string
  port :: nat

text \<open>
  The child process handle held in \<open>_node\<close>: its pid, the \<open>connected\<close> flag of the
  ipc channel and whether the lifecycle listeners are attached.
\<close>

record ChildProcess =
  pid :: nat
  connected :: bool
  listeners :: bool

record CardanoNodeIpcMessage =
  Started :: "string list option"
  ReplyPort :: "nat option"
  FInjects :: "string list option"

datatype ipc_request = QueryPort | SetFInject string bool

text \<open>The private fields of the class; the leading underscore of the source is written \<open>p_\<close>.\<close>

record CardanoNode =
  p_config :: "CardanoNodeConfig option"
  p_node :: "ChildProcess option"
  p_cardanoLogFile :: "string option"
  p_tlsConfig :: "TlsConfig option"
  p_state :: CardanoNodeState
  p_status :: "string option"
  p_startupTries :: nat
  p_injectedFaults :: "string list"

text \<open>
  Everything the supervisor does to the outside world is recorded, in order: broadcasts,
  transition listeners, ipc frames sent to the child, signals, writes to the store.
\<close>

datatype effect =
    BroadcastStateChange CardanoNodeState
  | BroadcastTlsConfig "TlsConfig option"
  | OnStarting | OnRunning | OnStopping | OnStopped | OnUpdating | OnUpdated
  | OnCrashed "(int \<times> string) option" | OnError | OnUnrecoverable
  | Send ipc_request
  | Spawn string "string list"
  | NodeKill nat
  | NodeDisconnect nat
  | ProcessKill nat
  | ExecTaskkill nat
  | StoreSet nat
  | LogFileEnd
  | RemoveAllListeners nat

datatype probe = Found | NotFound | ProbeError

text \<open>
  The operating system, the key-value store and the file system. The answers the
  supervisor cannot control (is a process alive, does a signal or a store access throw,
  does the log file open, which child does spawn return) are given per instant of a
  logical clock that advances with every such question; \<open>store\<close> is the value kept under
  the key \<open>PREVIOUS_CARDANO_PID\<close>. The probe \<open>getProcess\<close>, the process name and whether
  the platform is Windows come from modules outside the class and are parameters here.
\<close>

record world =
  clock :: nat
  getProcess :: "nat \<Rightarrow> nat \<Rightarrow> string \<Rightarrow> probe"
  processKillThrows :: "nat \<Rightarrow> nat \<Rightarrow> bool"
  storeThrows :: "nat \<Rightarrow> bool"
  store :: "nat option"
  readFileSync :: "string \<Rightarrow> string option"
  logFileOpens :: "nat \<Rightarrow> bool"
  spawned :: "nat \<Rightarrow> ChildProcess"
  isWindows :: bool
  CARDANO_PROCESS_NAME :: string
  effects :: "effect list"

type_synonym sys = "CardanoNode \<times> world"

datatype error =
    CannotBeStarted | TooManyStartupRetries | ErrorWhileSpawning | CouldNotKill
  | FaultNotInjected | ConditionNotMet | TypeError | StoreError | ProcessKillError
  | FileReadError | UndefinedRejection

text \<open>
  What a call gives back: a value (a resolved promise, a normal return), an error
  (a rejected promise, a throw), or a promise that is never settled.
\<close>

datatype 'a outcome = Resolved 'a | Rejected error | Pending

text \<open>
  A bounded wait polls; between two polls the event loop runs whatever else is due
  (handlers of channel events, other operations). An \<open>interference\<close> lists, for the
  successive retry intervals of one wait, what runs in each of them; a \<open>timing\<close> gives
  the interference of every wait from its place in the code and its timeout
  (\<open>None\<close> when the call passes no timeout).
\<close>

type_synonym interference = "(sys \<Rightarrow> sys) list"

datatype wait_site = AwaitConnected | AwaitKilled | AwaitExit | AwaitUpdated | AwaitFault

type_synonym timing = "wait_site \<Rightarrow> nat option \<Rightarrow> interference"

definition CARDANO_UPDATE_EXIT_CODE :: int where
  "CARDANO_UPDATE_EXIT_CODE = 20"

definition initial :: CardanoNode where
  "initial = \<lparr> p_config = None, p_node = None, p_cardanoLogFile = None, p_tlsConfig = None,
               p_state = STOPPED, p_status = None, p_startupTries = 0, p_injectedFaults = [] \<rparr>"

section \<open>Primitives\<close>

definition emit :: "effect list \<Rightarrow> sys \<Rightarrow> sys" where
  "emit es s = (fst s, (snd s)\<lparr>effects := effects (snd s) @ es\<rparr>)"

definition tick :: "sys \<Rightarrow> sys" where
  "tick s = (fst s, (snd s)\<lparr>clock := Suc (clock (snd s))\<rparr>)"

text \<open>
  Modelled from the spec: \<open>promisedCondition\<close> is imported from \<^verbatim>\<open>./utils\<close>, the wait
  primitive \<open>await_condition(predicate, timeout)\<close> returning success or timeout. After
  each retry interval the predicate is polled; the wait succeeds at the first poll that
  holds and times out when the intervals of its timeout are used up.
\<close>

fun promisedCondition :: "(sys \<Rightarrow> bool \<times> sys) \<Rightarrow> interference \<Rightarrow> sys \<Rightarrow> unit outcome \<times> sys" where
  "promisedCondition cond [] s = (Rejected ConditionNotMet, s)"
| "promisedCondition cond (d # ds) s =
     (case cond (d s) of
        (True, s') \<Rightarrow> (Resolved (), s')
      | (False, s') \<Rightarrow> promisedCondition cond ds s')"

text \<open>The listener that \<open>_changeToState\<close> calls after the broadcast (none for the default case).\<close>

fun transitionListener :: "CardanoNodeState \<Rightarrow> (int \<times> string) option \<Rightarrow> effect list" where
  "transitionListener STARTING args = [OnStarting]"
| "transitionListener RUNNING args = [OnRunning]"
| "transitionListener STOPPING args = [OnStopping]"
| "transitionListener STOPPED args = [OnStopped]"
| "transitionListener UPDATING args = [OnUpdating]"
| "transitionListener UPDATED args = [OnUpdated]"
| "transitionListener CRASHED args = [OnCrashed args]"
| "transitionListener UNRECOVERABLE args = [OnUnrecoverable]"
| "transitionListener EXITING args = []"
| "transitionListener ERRORED args = []"
| "transitionListener UPDATE_FAILED args = []"

definition changeToState :: "CardanoNodeState \<Rightarrow> (int \<times> string) option \<Rightarrow> sys \<Rightarrow> sys" where
  "changeToState st args s =
     emit (BroadcastStateChange st # transitionListener st args) ((fst s)\<lparr>p_state := st\<rparr>, snd s)"

definition isConnected :: "CardanoNode \<Rightarrow> bool" where
  "isConnected n = (case p_node n of None \<Rightarrow> False | Some c \<Rightarrow> connected c)"

definition isProcessRunning :: "nat \<Rightarrow> string \<Rightarrow> sys \<Rightarrow> bool \<times> sys" where
  "isProcessRunning previousPID processName s =
     (case getProcess (snd s) (clock (snd s)) previousPID processName of
        Found \<Rightarrow> (True, tick s)
      | NotFound \<Rightarrow> (False, tick s)
      | ProbeError \<Rightarrow> (False, tick s))"

definition isNodeProcessStillRunning :: "sys \<Rightarrow> bool \<times> sys" where
  "isNodeProcessStillRunning s =
     (case p_node (fst s) of
        None \<Rightarrow> (False, s)
      | Some c \<Rightarrow> isProcessRunning (pid c) (CARDANO_PROCESS_NAME (snd s)) s)"

definition isNodeProcessNotRunningAnymore :: "sys \<Rightarrow> bool \<times> sys" where
  "isNodeProcessNotRunningAnymore s =
     (case isNodeProcessStillRunning s of (b, s') \<Rightarrow> (b = False, s'))"

definition isDead :: "sys \<Rightarrow> bool \<times> sys" where
  "isDead s = (if \<not> isConnected (fst s) then isNodeProcessNotRunningAnymore s else (False, s))"

definition waitForNodeProcessToExit :: "timing \<Rightarrow> nat \<Rightarrow> sys \<Rightarrow> unit outcome \<times> sys" where
  "waitForNodeProcessToExit T timeout s =
     promisedCondition isNodeProcessNotRunningAnymore (T AwaitExit (Some timeout)) s"

definition isUnrecoverable :: "CardanoNodeConfig \<Rightarrow> CardanoNode \<Rightarrow> bool" where
  "isUnrecoverable config n = (p_startupTries n \<ge> startupMaxRetries config)"

section \<open>Reaping processes\<close>

text \<open>
  \<open>_killProcessWithName\<close>: \<open>process.kill(pid)\<close> (which may throw) or, on Windows,
  \<open>taskkill /pid <pid> /t /f\<close> through \<open>exec\<close>; then the wait for the probe to report
  the process gone, bounded by \<open>killTimeout\<close>. Any throw is turned into a rejection.
\<close>

definition killProcessWithName :: "timing \<Rightarrow> nat \<Rightarrow> string \<Rightarrow> sys \<Rightarrow> unit outcome \<times> sys" where
  "killProcessWithName T pid0 name s =
     (let config0 = p_config (fst s) in
      case (if \<not> isWindows (snd s)
            then (if processKillThrows (snd s) (clock (snd s)) pid0
                  then (Rejected ProcessKillError, tick s)
                  else (Resolved (), emit [ProcessKill pid0] (tick s)))
            else (Resolved (), emit [ExecTaskkill pid0] s)) of
        (Resolved u, s1) \<Rightarrow>
          (case config0 of
             None \<Rightarrow> (Rejected TypeError, s1)
           | Some cfg \<Rightarrow>
               promisedCondition
                 (\<lambda>x. case isProcessRunning pid0 name x of (b, x') \<Rightarrow> (b = False, x'))
                 (T AwaitKilled (Some (killTimeout cfg))) s1)
      | (Rejected e, s1) \<Rightarrow> (Rejected e, s1)
      | (Pending, s1) \<Rightarrow> (Pending, s1))"

definition ensureProcessIsNotRunning :: "timing \<Rightarrow> nat \<Rightarrow> string \<Rightarrow> sys \<Rightarrow> unit outcome \<times> sys" where
  "ensureProcessIsNotRunning T pid0 name s =
     (case isProcessRunning pid0 name s of
        (True, s1) \<Rightarrow>
          (case killProcessWithName T pid0 name s1 of
             (Resolved u, s2) \<Rightarrow> (Resolved (), s2)
           | (Rejected e, s2) \<Rightarrow> (Rejected UndefinedRejection, s2)
           | (Pending, s2) \<Rightarrow> (Pending, s2))
      | (False, s1) \<Rightarrow> (Resolved (), s1))"

definition ensureCurrentCardanoNodeIsNotRunning :: "timing \<Rightarrow> sys \<Rightarrow> unit outcome \<times> sys" where
  "ensureCurrentCardanoNodeIsNotRunning T s =
     (case p_node (fst s) of
        None \<Rightarrow> (Resolved (), s)
      | Some c \<Rightarrow> ensureProcessIsNotRunning T (pid c) (CARDANO_PROCESS_NAME (snd s)) s)"

text \<open>
  \<open>_retrieveData\<close>: a falsy value read from the store (absent, or \<open>0\<close>) resolves to
  \<open>null\<close>; the second \<open>resolve\<close> that follows in the source has no effect.
\<close>

definition retrieveData :: "sys \<Rightarrow> nat option outcome \<times> sys" where
  "retrieveData s =
     (if storeThrows (snd s) (clock (snd s)) then (Rejected StoreError, tick s)
      else (case store (snd s) of
              None \<Rightarrow> (Resolved None, tick s)
            | Some d \<Rightarrow> if d = 0 then (Resolved None, tick s) else (Resolved (Some d), tick s)))"

definition storeData :: "nat \<Rightarrow> sys \<Rightarrow> unit outcome \<times> sys" where
  "storeData d s =
     (if storeThrows (snd s) (clock (snd s)) then (Rejected StoreError, tick s)
      else (Resolved (), emit [StoreSet d] (tick (fst s, (snd s)\<lparr>store := Some d\<rparr>))))"

definition storeProcessStates :: "sys \<Rightarrow> unit outcome \<times> sys" where
  "storeProcessStates s =
     (case p_node (fst s) of
        None \<Rightarrow> (Resolved (), s)
      | Some c \<Rightarrow> storeData (pid c) s)"

definition ensurePreviousCardanoNodeIsNotRunning :: "timing \<Rightarrow> sys \<Rightarrow> unit outcome \<times> sys" where
  "ensurePreviousCardanoNodeIsNotRunning T s =
     (case retrieveData s of
        (Resolved None, s1) \<Rightarrow> (Resolved (), s1)
      | (Resolved (Some previousPID), s1) \<Rightarrow>
          ensureProcessIsNotRunning T previousPID (CARDANO_PROCESS_NAME (snd s1)) s1
      | (Rejected e, s1) \<Rightarrow> (Rejected e, s1)
      | (Pending, s1) \<Rightarrow> (Pending, s1))"

definition canBeStarted :: "timing \<Rightarrow> sys \<Rightarrow> bool \<times> sys" where
  "canBeStarted T s =
     (if isConnected (fst s) then (False, s)
      else (case ensurePreviousCardanoNodeIsNotRunning T s of
              (Resolved u, s1) \<Rightarrow> (True, s1)
            | (Rejected e, s1) \<Rightarrow> (False, s1)
            | (Pending, s1) \<Rightarrow> (False, s1)))"

definition reset :: "sys \<Rightarrow> sys" where
  "reset s =
     (let s1 = (case p_cardanoLogFile (fst s) of None \<Rightarrow> s | Some f \<Rightarrow> emit [LogFileEnd] s);
          s2 = (case p_node (fst s1) of
                  None \<Rightarrow> s1
                | Some c \<Rightarrow> emit [RemoveAllListeners (pid c)]
                             ((fst s1)\<lparr>p_node := Some (c\<lparr>listeners := False\<rparr>)\<rparr>, snd s1))
      in ((fst s2)\<lparr>p_tlsConfig := None\<rparr>, snd s2))"

text \<open>
  The condition of the first \<open>if\<close> of \<open>_waitForCardanoToExitOrKillIt\<close> is the call
  \<open>this._isNodeProcessNotRunningAnymore()\<close> without \<open>await\<close>: its value is the promise
  object, not the boolean the promise resolves to.
\<close>

datatype js_condition = Boolean bool | PromiseObject bool

fun truthy :: "js_condition \<Rightarrow> bool" where
  "truthy (Boolean b) = b"
| "truthy (PromiseObject b) = True"

definition waitForCardanoToExitOrKillIt :: "timing \<Rightarrow> sys \<Rightarrow> unit outcome \<times> sys" where
  "waitForCardanoToExitOrKillIt T s =
     (let config0 = p_config (fst s) in
      case isNodeProcessNotRunningAnymore s of
        (b, s1) \<Rightarrow>
          if truthy (PromiseObject b) then (Resolved (), s1)
          else (case (case config0 of
                        None \<Rightarrow> (Rejected TypeError, s1)
                      | Some cfg \<Rightarrow> waitForNodeProcessToExit T (shutdownTimeout cfg) s1) of
                  (Resolved u, s2) \<Rightarrow> (Resolved (), s2)
                | (Rejected e, s2) \<Rightarrow> ensureCurrentCardanoNodeIsNotRunning T s2
                | (Pending, s2) \<Rightarrow> (Pending, s2)))"

section \<open>Public operations\<close>

text \<open>
  \<open>kill\<close> returns \<open>new Promise(async (resolve, reject) => ...)\<close>: the promise is settled
  only by a call of \<open>resolve\<close> or \<open>reject\<close>. The branch for a dead process returns from
  the executor with \<open>return Promise.resolve()\<close>, which calls neither; so does a throw
  inside the \<open>catch\<close> block.
\<close>

definition kill_catch :: "sys \<Rightarrow> unit outcome \<times> sys" where
  "kill_catch s =
     (case storeProcessStates s of
        (Resolved u, s1) \<Rightarrow> (Rejected CouldNotKill, reset s1)
      | (Rejected e, s1) \<Rightarrow> (Pending, s1)
      | (Pending, s1) \<Rightarrow> (Pending, s1))"

definition kill :: "timing \<Rightarrow> sys \<Rightarrow> unit outcome \<times> sys" where
  "kill T s =
     (let node0 = p_node (fst s) in
      case isDead s of
        (True, s1) \<Rightarrow> (Pending, s1)
      | (False, s1) \<Rightarrow>
          (let s2 = (case node0 of None \<Rightarrow> s1 | Some c \<Rightarrow> emit [NodeKill (pid c)] s1) in
           case waitForCardanoToExitOrKillIt T s2 of
             (Resolved u, s3) \<Rightarrow>
               (case storeProcessStates s3 of
                  (Resolved u', s4) \<Rightarrow> (Resolved (), reset (changeToState STOPPED None s4))
                | (Rejected e, s4) \<Rightarrow> kill_catch s4
                | (Pending, s4) \<Rightarrow> (Pending, s4))
           | (Rejected e, s3) \<Rightarrow> kill_catch s3
           | (Pending, s3) \<Rightarrow> (Pending, s3)))"

text \<open>
  The body of the promise \<open>start\<close> returns: once the log file is open (never, if it does
  not open) the child is spawned and the wait for its channel to connect begins. The
  waited condition reads \<open>connected\<close> of the child just stored in \<open>_node\<close>.
\<close>

definition start_promise :: "timing \<Rightarrow> CardanoNodeConfig \<Rightarrow> sys \<Rightarrow> unit outcome \<times> sys" where
  "start_promise T config s =
     (if \<not> logFileOpens (snd s) (clock (snd s)) then (Pending, tick s)
      else
        (let s1 = tick ((fst s)\<lparr>p_cardanoLogFile := Some (logFilePath config)\<rparr>, snd s);
             node = spawned (snd s1) (clock (snd s1));
             s2 = emit [Spawn (nodePath config) (nodeArgs config)] (tick s1);
             s3 = ((fst s2)\<lparr>p_node := Some node\<rparr>, snd s2)
         in case promisedCondition (\<lambda>x. (isConnected (fst x), x))
                   (T AwaitConnected (Some (startupTimeout config))) s3 of
              (Resolved u, s4) \<Rightarrow>
                (Resolved (),
                 emit [Send QueryPort]
                   ((fst s4)\<lparr>p_node := map_option (\<lambda>c. c\<lparr>listeners := True\<rparr>) (p_node (fst s4))\<rparr>,
                    snd s4))
            | (Rejected e, s4) \<Rightarrow> (Rejected ErrorWhileSpawning, s4)
            | (Pending, s4) \<Rightarrow> (Pending, s4)))"

definition start :: "timing \<Rightarrow> CardanoNodeConfig \<Rightarrow> bool \<Rightarrow> sys \<Rightarrow> unit outcome \<times> sys" where
  "start T config isForced s =
     (case canBeStarted T s of
        (False, s1) \<Rightarrow> (Rejected CannotBeStarted, s1)
      | (True, s1) \<Rightarrow>
          if isUnrecoverable config (fst s1) \<and> \<not> isForced
          then (Rejected TooManyStartupRetries, s1)
          else start_promise T config
                 (changeToState STARTING None
                    ((fst s1)\<lparr>p_config := Some config,
                              p_startupTries := Suc (p_startupTries (fst s1))\<rparr>, snd s1)))"

text \<open>
  \<open>_node.disconnect()\<close> closes the ipc channel of the child: \<open>connected\<close> becomes false.
  (On a channel that is closed already the runtime reports an error event instead; here
  the call is recorded and nothing else changes.)
\<close>

definition disconnect :: "sys \<Rightarrow> sys" where
  "disconnect s =
     (case p_node (fst s) of
        None \<Rightarrow> s
      | Some c \<Rightarrow> emit [NodeDisconnect (pid c)]
                   ((fst s)\<lparr>p_node := Some (c\<lparr>connected := False\<rparr>)\<rparr>, snd s))"

definition stop :: "timing \<Rightarrow> sys \<Rightarrow> unit outcome \<times> sys" where
  "stop T s =
     (let config0 = p_config (fst s) in
      case isDead s of
        (True, s1) \<Rightarrow> (Resolved (), s1)
      | (False, s1) \<Rightarrow>
          (case (let s2 = changeToState STOPPING None (disconnect s1) in
                 case config0 of
                   None \<Rightarrow> (Rejected TypeError, s2)
                 | Some cfg \<Rightarrow>
                     (case waitForNodeProcessToExit T (shutdownTimeout cfg) s2 of
                        (Resolved u, s3) \<Rightarrow> storeProcessStates s3
                      | (Rejected e, s3) \<Rightarrow> (Rejected e, s3)
                      | (Pending, s3) \<Rightarrow> (Pending, s3))) of
             (Resolved u, s4) \<Rightarrow> (Resolved (), reset s4)
           | (Rejected e, s4) \<Rightarrow>
               (case kill T s4 of
                  (Resolved u, s5) \<Rightarrow> (Resolved (), s5)
                | (Rejected killError, s5) \<Rightarrow> (Rejected killError, s5)
                | (Pending, s5) \<Rightarrow> (Pending, s5))
           | (Pending, s4) \<Rightarrow> (Pending, s4)))"

text \<open>
  \<open>restart\<close> passes the stored \<open>_config\<close> to \<open>start\<close>; when none was ever stored, the
  second guard of \<open>start\<close> reads a field of \<open>undefined\<close> and throws.
\<close>

definition restart :: "timing \<Rightarrow> bool \<Rightarrow> sys \<Rightarrow> unit outcome \<times> sys" where
  "restart T isForced s =
     (let config0 = p_config (fst s) in
      case (case (if isConnected (fst s) then stop T s else (Resolved (), s)) of
              (Resolved u, s1) \<Rightarrow>
                (case waitForCardanoToExitOrKillIt T s1 of
                   (Resolved u', s2) \<Rightarrow>
                     (case config0 of
                        Some cfg \<Rightarrow> start T cfg isForced s2
                      | None \<Rightarrow>
                          (case canBeStarted T s2 of
                             (False, s3) \<Rightarrow> (Rejected CannotBeStarted, s3)
                           | (True, s3) \<Rightarrow> (Rejected TypeError, s3)))
                 | (Rejected e, s2) \<Rightarrow> (Rejected e, s2)
                 | (Pending, s2) \<Rightarrow> (Pending, s2))
            | (Rejected e, s1) \<Rightarrow> (Rejected e, s1)
            | (Pending, s1) \<Rightarrow> (Pending, s1)) of
        (Resolved u, s4) \<Rightarrow> (Resolved (), s4)
      | (Rejected e, s4) \<Rightarrow> (Rejected e, changeToState ERRORED None s4)
      | (Pending, s4) \<Rightarrow> (Pending, s4))"

definition broadcastTlsConfig :: "sys \<Rightarrow> sys" where
  "broadcastTlsConfig s = emit [BroadcastTlsConfig (p_tlsConfig (fst s))] s"

definition expectNodeUpdate :: "timing \<Rightarrow> sys \<Rightarrow> unit outcome \<times> sys" where
  "expectNodeUpdate T s =
     (let config0 = p_config (fst s);
          s1 = changeToState UPDATING None s
      in case (case config0 of
                 None \<Rightarrow> (Rejected TypeError, s1)
               | Some cfg \<Rightarrow>
                   (case promisedCondition (\<lambda>x. (p_state (fst x) = UPDATED, x))
                           (T AwaitUpdated (Some (updateTimeout cfg))) s1 of
                      (Resolved u, s2) \<Rightarrow> waitForNodeProcessToExit T (updateTimeout cfg) s2
                    | (Rejected e, s2) \<Rightarrow> (Rejected e, s2)
                    | (Pending, s2) \<Rightarrow> (Pending, s2))) of
           (Resolved u, s3) \<Rightarrow> (Resolved (), s3)
         | (Rejected e, s3) \<Rightarrow> kill T s3
         | (Pending, s3) \<Rightarrow> (Pending, s3))"

definition setFault :: "timing \<Rightarrow> string \<times> bool \<Rightarrow> sys \<Rightarrow> unit outcome \<times> sys" where
  "setFault T request s =
     (case p_node (fst s) of
        None \<Rightarrow> (Resolved (), s)
      | Some c \<Rightarrow>
          (let fault = fst request;
               isEnabled = snd request;
               s1 = emit [Send (SetFInject fault isEnabled)] s
           in case promisedCondition
                     (\<lambda>x. (let hasFault = (fault \<in> set (p_injectedFaults (fst x)))
                           in if isEnabled then hasFault else \<not> hasFault, x))
                     (T AwaitFault None) s1 of
                (Resolved u, s2) \<Rightarrow> (Resolved (), s2)
              | (Rejected e, s2) \<Rightarrow> (Rejected FaultNotInjected, s2)
              | (Pending, s2) \<Rightarrow> (Pending, s2)))"

definition saveStatus :: "string option \<Rightarrow> sys \<Rightarrow> sys" where
  "saveStatus status s = ((fst s)\<lparr>p_status := status\<rparr>, snd s)"

section \<open>Handlers of the channel events\<close>

definition handleCardanoReplyPortMessage :: "nat \<Rightarrow> sys \<Rightarrow> unit outcome \<times> sys" where
  "handleCardanoReplyPortMessage port0 s =
     (case p_config (fst s) of
        None \<Rightarrow> (Rejected TypeError, s)
      | Some cfg \<Rightarrow>
          (case readFileSync (snd s) (tlsPath cfg @ ''/client/ca.crt'') of
             None \<Rightarrow> (Rejected FileReadError, s)
           | Some ca0 \<Rightarrow>
          (case readFileSync (snd s) (tlsPath cfg @ ''/client/client.key'') of
             None \<Rightarrow> (Rejected FileReadError, s)
           | Some key0 \<Rightarrow>
          (case readFileSync (snd s) (tlsPath cfg @ ''/client/client.pem'') of
             None \<Rightarrow> (Rejected FileReadError, s)
           | Some cert0 \<Rightarrow>
               (let s1 = ((fst s)\<lparr>p_tlsConfig :=
                            Some \<lparr>ca = ca0, key = key0, cert = cert0,
                                  hostname = ''localhost'', port = port0\<rparr>\<rparr>, snd s)
                in if p_state (fst s1) = STARTING
                   then (let s2 = broadcastTlsConfig (changeToState RUNNING None s1)
                         in (Resolved (), ((fst s2)\<lparr>p_startupTries := 0\<rparr>, snd s2)))
                   else (Resolved (), s1))))))"

definition handleCardanoFaultInjectionResponse :: "string list \<Rightarrow> sys \<Rightarrow> sys" where
  "handleCardanoFaultInjectionResponse response s = ((fst s)\<lparr>p_injectedFaults := response\<rparr>, snd s)"

definition handleCardanoNodeMessage :: "CardanoNodeIpcMessage option \<Rightarrow> sys \<Rightarrow> unit outcome \<times> sys" where
  "handleCardanoNodeMessage msg s =
     (case msg of
        None \<Rightarrow> (Resolved (), s)
      | Some m \<Rightarrow>
          (case (case ReplyPort m of
                   None \<Rightarrow> (Resolved (), s)
                 | Some p \<Rightarrow> handleCardanoReplyPortMessage p s) of
             (Resolved u, s1) \<Rightarrow>
               (case FInjects m of
                  None \<Rightarrow> (Resolved (), s1)
                | Some r \<Rightarrow> (Resolved (), handleCardanoFaultInjectionResponse r s1))
           | (Rejected e, s1) \<Rightarrow> (Rejected e, s1)
           | (Pending, s1) \<Rightarrow> (Pending, s1)))"

definition handleCardanoNodeError :: "timing \<Rightarrow> sys \<Rightarrow> unit outcome \<times> sys" where
  "handleCardanoNodeError T s = restart T False (emit [OnError] (changeToState ERRORED None s))"

text \<open>
  The \<open>try\<close> block of \<open>_handleCardanoNodeExit\<close>: wait for the process to be gone and, if
  it is not within \<open>shutdownTimeout\<close>, try to kill it, whatever the outcome.
\<close>

definition waitUntilReallyDead ::
    "timing \<Rightarrow> CardanoNodeConfig \<Rightarrow> ChildProcess option \<Rightarrow> sys \<Rightarrow> sys" where
  "waitUntilReallyDead T cfg node0 s =
     (case waitForNodeProcessToExit T (shutdownTimeout cfg) s of
        (Resolved u, s1) \<Rightarrow> s1
      | (Rejected e, s1) \<Rightarrow>
          (case node0 of
             None \<Rightarrow> s1
           | Some c \<Rightarrow> snd (ensureProcessIsNotRunning T (pid c) (CARDANO_PROCESS_NAME (snd s1)) s1))
      | (Pending, s1) \<Rightarrow> s1)"

definition handleCardanoNodeExit :: "timing \<Rightarrow> int \<Rightarrow> string \<Rightarrow> sys \<Rightarrow> unit outcome \<times> sys" where
  "handleCardanoNodeExit T code signal s =
     (let config0 = p_config (fst s);
          node0 = p_node (fst s);
          s1 = (if p_state (fst s) = RUNNING then changeToState EXITING None s else s)
      in case config0 of
           None \<Rightarrow> (Rejected TypeError, s1)
         | Some cfg \<Rightarrow>
             (let s2 = waitUntilReallyDead T cfg node0 s1;
                  s3 = (if p_state (fst s2) = STOPPING then changeToState STOPPED None s2
                        else if p_state (fst s2) = UPDATING \<and> code = CARDANO_UPDATE_EXIT_CODE
                        then changeToState UPDATED None s2
                        else if isUnrecoverable cfg (fst s2)
                        then changeToState UNRECOVERABLE None s2
                        else changeToState CRASHED (Some (code, signal)) s2)
              in (Resolved (), reset s3)))"

section \<open>The getter \<open>tlsConfig\<close> over a heap of objects\<close>

text \<open>
  \<open>get tlsConfig() { return Object.assign({}, this._tlsConfig); }\<close> is about object
  identity, so here objects live in a heap: an object is a finite map from property names
  to values, a reference is an index into the heap, and \<open>this._tlsConfig\<close> is \<open>null\<close> or
  a reference. \<open>Object.assign\<close> copies the own properties of the source onto the target
  and skips a source that is \<open>null\<close>; property values are copied as they are (a buffer
  stays shared).
\<close>

datatype js_value = JNull | JNumber nat | JString string | JObject nat

type_synonym js_object = "string \<rightharpoonup> js_value"

type_synonym heap = "js_object list"

definition new_object :: "heap \<Rightarrow> nat \<times> heap" where
  "new_object h = (length h, h @ [Map.empty])"

definition Object_assign :: "nat \<Rightarrow> js_value \<Rightarrow> heap \<Rightarrow> heap" where
  "Object_assign target source h =
     (case source of
        JObject a \<Rightarrow> if a < length h \<and> target < length h
                      then h[target := (h ! target) ++ (h ! a)] else h
      | JNull \<Rightarrow> h
      | JNumber k \<Rightarrow> h
      | JString x \<Rightarrow> h)"

definition tlsConfig :: "js_value \<Rightarrow> heap \<Rightarrow> nat \<times> heap" where
  "tlsConfig this_tlsConfig h =
     (case new_object h of (target, h1) \<Rightarrow> (target, Object_assign target this_tlsConfig h1))"

text \<open>An assignment \<open>o[k] = v\<close> through a reference, and the object a \<open>TlsConfig\<close> is.\<close>

definition write_property :: "nat \<Rightarrow> string \<Rightarrow> js_value \<Rightarrow> heap \<Rightarrow> heap" where
  "write_property a k v h = (if a < length h then h[a := (h ! a)(k \<mapsto> v)] else h)"

definition tlsObject :: "TlsConfig \<Rightarrow> js_object" where
  "tlsObject c = [''ca'' \<mapsto> JString (ca c), ''key'' \<mapsto> JString (key c),
                  ''cert'' \<mapsto> JString (cert c), ''hostname'' \<mapsto> JString (hostname c),
                  ''port'' \<mapsto> JNumber (port c)]"

definition wellformed_ref :: "js_value \<Rightarrow> heap \<Rightarrow> bool" where
  "wellformed_ref v h = (case v of JObject a \<Rightarrow> a < length h | JNull \<Rightarrow> True
                         | JNumber k \<Rightarrow> False | JString x \<Rightarrow> False)"

section \<open>Traces\<close>

text \<open>
  What can happen to a supervisor: a call of its public interface or an event of the
  child's channel. A trace is a sequence of these, each with the timing of its waits.
\<close>

text \<open>
  The runtime closes the ipc channel of the child (when the child goes away, or after a
  disconnect): the \<open>connected\<close> flag of the handle becomes false. This is not code of the
  supervisor; it is the one event of the environment that changes what the supervisor
  holds.
\<close>

definition channelClosed :: "sys \<Rightarrow> sys" where
  "channelClosed s =
     (case p_node (fst s) of
        None \<Rightarrow> s
      | Some c \<Rightarrow> ((fst s)\<lparr>p_node := Some (c\<lparr>connected := False\<rparr>)\<rparr>, snd s))"

datatype operation =
    Start CardanoNodeConfig bool
  | Stop
  | Kill
  | Restart bool
  | BroadcastTls
  | ExpectNodeUpdate
  | SetFault string bool
  | SaveStatus "string option"
  | Message "CardanoNodeIpcMessage option"
  | Exit int string
  | Error
  | ChannelClosed

fun perform :: "timing \<Rightarrow> operation \<Rightarrow> sys \<Rightarrow> sys" where
  "perform T (Start config isForced) s = snd (start T config isForced s)"
| "perform T Stop s = snd (stop T s)"
| "perform T Kill s = snd (kill T s)"
| "perform T (Restart isForced) s = snd (restart T isForced s)"
| "perform T BroadcastTls s = broadcastTlsConfig s"
| "perform T ExpectNodeUpdate s = snd (expectNodeUpdate T s)"
| "perform T (SetFault fault isEnabled) s = snd (setFault T (fault, isEnabled) s)"
| "perform T (SaveStatus status) s = saveStatus status s"
| "perform T (Message msg) s = snd (handleCardanoNodeMessage msg s)"
| "perform T (Exit code signal) s = snd (handleCardanoNodeExit T code signal s)"
| "perform T Error s = snd (handleCardanoNodeError T s)"
| "perform T ChannelClosed s = channelClosed s"

definition run :: "(timing \<times> operation) list \<Rightarrow> sys \<Rightarrow> sys" where
  "run trace s = fold (\<lambda>(T, op). perform T op) trace s"

definition receive :: "CardanoNodeIpcMessage option list \<Rightarrow> sys \<Rightarrow> sys" where
  "receive frames s = fold (\<lambda>msg x. snd (handleCardanoNodeMessage msg x)) frames s"

fun isTlsBroadcast :: "effect \<Rightarrow> bool" where
  "isTlsBroadcast (BroadcastTlsConfig c) = True"
| "isTlsBroadcast e = False"

text \<open>
  The specification's account of \<open>startup_tries\<close>, read off the broadcast transitions:
  one more for every entry into \<open>STARTING\<close>, back to \<open>0\<close> at every entry into \<open>RUNNING\<close>.
\<close>

fun account :: "effect \<Rightarrow> nat \<Rightarrow> nat" where
  "account (BroadcastStateChange st) k =
     (if st = STARTING then Suc k else if st = RUNNING then 0 else k)"
| "account e k = k"

definition startup_tries_spec :: "effect list \<Rightarrow> nat" where
  "startup_tries_spec es = fold account es 0"

definition tries_inv :: "sys \<Rightarrow> bool" where
  "tries_inv s = (p_startupTries (fst s) = startup_tries_spec (effects (snd s)))"

text \<open>What else runs during the waits of an operation keeps the account too.\<close>

definition rely :: "timing \<Rightarrow> bool" where
  "rely T = (\<forall>site t. \<forall>d \<in> set (T site t). \<forall>x. tries_inv x \<longrightarrow> tries_inv (d x))"

text \<open>
  What the retry accounting can see of a state: the counter, and of the effects the
  entries into \<open>STARTING\<close> and \<open>RUNNING\<close> and the spawns. A property \<open>factors\<close> if it
  depends on nothing else, and it is \<open>stable\<close> under a timing if, besides, whatever runs
  during the waits keeps it. A timing is \<open>calm\<close> if what runs during the waits changes
  nothing of what is observed.
\<close>

fun relevant :: "effect \<Rightarrow> bool" where
  "relevant (BroadcastStateChange st) = (st = STARTING \<or> st = RUNNING)"
| "relevant (Spawn path args) = True"
| "relevant e = False"

definition observed :: "sys \<Rightarrow> nat \<times> effect list" where
  "observed s = (p_startupTries (fst s), filter relevant (effects (snd s)))"

definition factors :: "(sys \<Rightarrow> bool) \<Rightarrow> bool" where
  "factors P = (\<forall>x y. observed x = observed y \<longrightarrow> P x = P y)"

definition stable :: "(sys \<Rightarrow> bool) \<Rightarrow> timing \<Rightarrow> bool" where
  "stable P T = (factors P \<and> (\<forall>site t. \<forall>d \<in> set (T site t). \<forall>x. P x \<longrightarrow> P (d x)))"

definition calm :: "timing \<Rightarrow> bool" where
  "calm T = (\<forall>site t. \<forall>d \<in> set (T site t). \<forall>x. observed (d x) = observed x)"

text \<open>What else runs during a wait only adds to the record of effects.\<close>

definition extends :: "(sys \<Rightarrow> sys) \<Rightarrow> bool" where
  "extends d = (\<forall>x. \<exists>es. effects (snd (d x)) = effects (snd x) @ es)"

section \<open>Concrete supervisors and worlds\<close>

definition example_config :: "nat \<Rightarrow> CardanoNodeConfig" where
  "example_config N =
     \<lparr>nodePath = ''cardano-node'', logFilePath = ''node.log'', tlsPath = ''tls'', nodeArgs = [],
      startupTimeout = 5000, startupMaxRetries = N, shutdownTimeout = 5000,
      killTimeout = 5000, updateTimeout = 5000\<rparr>"

text \<open>A world in which every probe of a process gives the same answer and nothing throws.\<close>

definition example_world :: "probe \<Rightarrow> world" where
  "example_world answer =
     \<lparr>clock = 0, getProcess = (\<lambda>t p n. answer), processKillThrows = (\<lambda>t p. False),
      storeThrows = (\<lambda>t. False), store = None, readFileSync = (\<lambda>path. Some ''pem''),
      logFileOpens = (\<lambda>t. True),
      spawned = (\<lambda>t. \<lparr>pid = 42, connected = True, listeners = False\<rparr>),
      isWindows = False, CARDANO_PROCESS_NAME = ''cardano-node'', effects = []\<rparr>"

text \<open>Every wait polls twice and nothing else happens meanwhile.\<close>

definition quiet :: timing where
  "quiet = (\<lambda>site t. [id, id])"

text \<open>A supervisor holding child 42, in a given state, with a given number of tries.\<close>

definition example_node :: "CardanoNodeState \<Rightarrow> bool \<Rightarrow> nat \<Rightarrow> nat \<Rightarrow> CardanoNode" where
  "example_node st conn tries N =
     \<lparr>p_config = Some (example_config N),
      p_node = Some \<lparr>pid = 42, connected = conn, listeners = True\<rparr>,
      p_cardanoLogFile = Some ''node.log'', p_tlsConfig = None, p_state = st,
      p_status = None, p_startupTries = tries, p_injectedFaults = []\<rparr>"

definition example_tls :: TlsConfig where
  "example_tls = \<lparr>ca = ''ca'', key = ''key'', cert = ''cert'', hostname = ''localhost'', port = 8090\<rparr>"

text \<open>During the wait of \<open>setFault\<close> the daemon confirms one active fault.\<close>

definition fault_timing :: timing where
  "fault_timing = (\<lambda>site t. [\<lambda>x. snd (handleCardanoNodeMessage
      (Some \<lparr>Started = None, ReplyPort = None, FInjects = Some [''FInjIgnoreAPI'']\<rparr>) x)])"

text \<open>The three files of the TLS folder can be read.\<close>

definition tls_readable :: "CardanoNodeConfig \<Rightarrow> world \<Rightarrow> bool" where
  "tls_readable cfg w = (readFileSync w (tlsPath cfg @ ''/client/ca.crt'') \<noteq> None \<and>
     readFileSync w (tlsPath cfg @ ''/client/client.key'') \<noteq> None \<and>
     readFileSync w (tlsPath cfg @ ''/client/client.pem'') \<noteq> None)"

text \<open>How often \<open>RUNNING\<close> was entered, and how often the TLS config was broadcast.\<close>

definition running_entries :: "effect list \<Rightarrow> nat" where
  "running_entries es = count_list es (BroadcastStateChange RUNNING)"

definition tls_broadcasts :: "effect list \<Rightarrow> nat" where
  "tls_broadcasts es = length (filter isTlsBroadcast es)"

definition port_frame :: "nat \<Rightarrow> CardanoNodeIpcMessage option" where
  "port_frame p = Some \<lparr>Started = None, ReplyPort = Some p, FInjects = None\<rparr>"

text \<open>
  With \<open>startupMaxRetries = 2\<close>: two starts, each followed by the exit of the child with
  code 1 before any \<open>ReplyPort\<close>.
\<close>

definition two_failed_starts :: "(timing \<times> operation) list" where
  "two_failed_starts =
     [(quiet, Start (example_config 2) False), (quiet, ChannelClosed), (quiet, Exit 1 []),
      (quiet, Start (example_config 2) False), (quiet, ChannelClosed), (quiet, Exit 1 [])]"

text \<open>
  A start, the daemon's \<open>ReplyPort\<close>, then an update during whose wait the child exits
  with code 20, and a restart.
\<close>

definition update_timing :: timing where
  "update_timing = (\<lambda>site t. if site = AwaitUpdated
                               then [perform quiet ChannelClosed, perform quiet (Exit 20 [])]
                               else [id, id])"

definition start_update_restart :: "(timing \<times> operation) list" where
  "start_update_restart =
     [(quiet, Start (example_config 2) False), (quiet, Message (port_frame 8090)),
      (update_timing, ExpectNodeUpdate), (quiet, Restart False)]"

text \<open>
  Inside the handler of \<open>ReplyPort 8090\<close>, for a supervisor in \<open>STARTING\<close> after one
  start whose TLS files read \<open>pem\<close>: the state right after \<open>_changeToState(RUNNING)\<close>
  has returned, the point at which the handler goes on to broadcast the TLS config and
  then to assign the counter.
\<close>

definition after_RUNNING_transition :: sys where
  "after_RUNNING_transition =
     changeToState RUNNING None
       ((example_node STARTING True 1 2)
          \<lparr>p_tlsConfig := Some \<lparr>ca = ''pem'', key = ''pem'', cert = ''pem'',
                                  hostname = ''localhost'', port = 8090\<rparr>\<rparr>,
        example_world Found)"

section \<open>Basic facts\<close>

lemmas probe_defs = isDead_def isConnected_def isNodeProcessNotRunningAnymore_def
  isNodeProcessStillRunning_def isProcessRunning_def tick_def

lemmas example_defs = example_config_def example_world_def quiet_def example_node_def

lemmas op_defs = kill_def emit_def waitForCardanoToExitOrKillIt_def
  storeProcessStates_def storeData_def changeToState_def reset_def kill_catch_def
  waitForNodeProcessToExit_def

text \<open>Everything a concrete run of a trace unfolds.\<close>

lemmas all_defs = run_def start_update_restart_def two_failed_starts_def update_timing_def
  port_frame_def example_config_def example_world_def quiet_def initial_def
  start_def start_promise_def canBeStarted_def ensurePreviousCardanoNodeIsNotRunning_def
  retrieveData_def ensureProcessIsNotRunning_def killProcessWithName_def
  isDead_def isConnected_def isNodeProcessNotRunningAnymore_def
  isNodeProcessStillRunning_def isProcessRunning_def tick_def emit_def changeToState_def
  isUnrecoverable_def handleCardanoNodeMessage_def handleCardanoReplyPortMessage_def
  handleCardanoFaultInjectionResponse_def broadcastTlsConfig_def
  expectNodeUpdate_def waitForNodeProcessToExit_def kill_def kill_catch_def
  waitForCardanoToExitOrKillIt_def storeProcessStates_def storeData_def reset_def
  restart_def stop_def disconnect_def channelClosed_def
  handleCardanoNodeExit_def waitUntilReallyDead_def CARDANO_UPDATE_EXIT_CODE_def Let_def

lemma isDead_keeps:
  "fst (snd (isDead s)) = fst s \<and> effects (snd (snd (isDead s))) = effects (snd s) \<and>
   store (snd (snd (isDead s))) = store (snd s)"
  by (simp add: probe_defs split: option.splits probe.splits)

lemma reset_state: "p_state (fst (reset s)) = p_state (fst s)"
  by (simp add: reset_def emit_def Let_def split: option.splits)

lemma changeToState_state: "p_state (fst (changeToState st args s)) = st"
  by (simp add: changeToState_def emit_def)

lemma snd_outcome_case:
  "snd (case p of (Resolved u, x) \<Rightarrow> (f u, x) | (Rejected e, x) \<Rightarrow> (g e, x)
        | (Pending, x) \<Rightarrow> (h, x)) = snd p"
  by (cases p; cases "fst p") auto

text \<open>A wait that succeeds ends in a state in which its condition was just found to hold.\<close>

lemma promisedCondition_resolved:
  "promisedCondition cond ds s = (Resolved u, s') \<Longrightarrow> \<exists>x. cond x = (True, s')"
proof (induction ds arbitrary: s)
  case Nil
  then show ?case by simp
next
  case (Cons d ds)
  obtain b s1 where c: "cond (d s) = (b, s1)" by (cases "cond (d s)")
  show ?case
  proof (cases b)
    case True
    with c Cons.prems have "s1 = s'" by simp
    with c True have "cond (d s) = (True, s')" by simp
    then show ?thesis by (rule exI)
  next
    case False
    with c Cons.prems have "promisedCondition cond ds s1 = (Resolved u, s')" by simp
    then show ?thesis by (rule Cons.IH)
  qed
qed

lemma promisedCondition_effects:
  "\<forall>d \<in> set ds. extends d \<Longrightarrow> \<forall>x. effects (snd (snd (cond x))) = effects (snd x) \<Longrightarrow>
   \<exists>es. effects (snd (snd (promisedCondition cond ds s))) = effects (snd s) @ es"
proof (induction ds arbitrary: s)
  case Nil
  then show ?case by simp
next
  case (Cons d ds)
  obtain b s1 where c: "cond (d s) = (b, s1)" by (cases "cond (d s)")
  have "extends d" using Cons.prems(1) by simp
  then obtain es1 where e1: "effects (snd (d s)) = effects (snd s) @ es1"
    unfolding extends_def by blast
  from Cons.prems(2) c have e2: "effects (snd s1) = effects (snd (d s))"
    by (metis snd_conv)
  show ?case
  proof (cases b)
    case True
    with c e1 e2 show ?thesis by simp
  next
    case False
    have "\<forall>d \<in> set ds. extends d" using Cons.prems(1) by simp
    from Cons.IH [OF this Cons.prems(2), of s1] obtain es2 where
      "effects (snd (snd (promisedCondition cond ds s1))) = effects (snd s1) @ es2"
      by blast
    with False c e1 e2 show ?thesis by simp
  qed
qed

lemma message_without_port_effects:
  "ReplyPort m = None \<Longrightarrow>
   effects (snd (snd (handleCardanoNodeMessage (Some m) x))) = effects (snd x)"
  by (simp add: handleCardanoNodeMessage_def handleCardanoFaultInjectionResponse_def
      split: option.splits)

section \<open>What the operations leave unobserved\<close>

text \<open>
  Apart from \<open>start\<close> and the handler of \<open>ReplyPort\<close>, no code of the supervisor touches
  the counter of startup tries, enters \<open>STARTING\<close> or \<open>RUNNING\<close>, or spawns. Hence every
  property that factors through the observation, and that the interference of the waits
  keeps, is kept by these operations.
\<close>

lemma factorsD: "factors P \<Longrightarrow> observed x = observed y \<Longrightarrow> P x = P y"
  unfolding factors_def by blast

lemma snd_case_prod [simp]: "snd (case p of (b, x) \<Rightarrow> (f b, x)) = snd p"
  by (cases p) simp

lemma stable_factors: "stable P T \<Longrightarrow> factors P"
  by (simp add: stable_def)

lemma observed_tick [simp]: "observed (tick s) = observed s"
  by (simp add: observed_def tick_def)

lemma observed_emit [simp]: "\<forall>e \<in> set es. \<not> relevant e \<Longrightarrow> observed (emit es s) = observed s"
  by (simp add: observed_def emit_def)

lemma observed_changeToState [simp]:
  "st \<noteq> STARTING \<Longrightarrow> st \<noteq> RUNNING \<Longrightarrow> observed (changeToState st args s) = observed s"
  by (cases st) (simp_all add: observed_def changeToState_def emit_def)

lemma observed_isProcessRunning [simp]: "observed (snd (isProcessRunning p name s)) = observed s"
  by (simp add: isProcessRunning_def split: probe.splits)

lemma observed_isNodeProcessStillRunning [simp]: "observed (snd (isNodeProcessStillRunning s)) = observed s"
  by (simp add: isNodeProcessStillRunning_def split: option.splits)

lemma observed_isNodeProcessNotRunningAnymore [simp]:
  "observed (snd (isNodeProcessNotRunningAnymore s)) = observed s"
  by (simp add: isNodeProcessNotRunningAnymore_def)

lemma observed_isDead [simp]: "observed (snd (isDead s)) = observed s"
  by (simp add: isDead_def)

lemma observed_retrieveData [simp]: "observed (snd (retrieveData s)) = observed s"
  by (simp add: retrieveData_def split: option.splits)

lemma observed_storeData [simp]: "observed (snd (storeData d s)) = observed s"
  by (simp add: storeData_def observed_def emit_def tick_def)

lemma observed_storeProcessStates [simp]: "observed (snd (storeProcessStates s)) = observed s"
  by (simp add: storeProcessStates_def split: option.splits)

lemma observed_reset [simp]: "observed (reset s) = observed s"
  by (simp add: reset_def observed_def emit_def Let_def split: option.splits)

lemma observed_disconnect [simp]: "observed (disconnect s) = observed s"
  by (simp add: disconnect_def observed_def emit_def split: option.splits)

lemma observed_channelClosed [simp]: "observed (channelClosed s) = observed s"
  by (simp add: channelClosed_def observed_def split: option.splits)

lemma observed_saveStatus [simp]: "observed (saveStatus st s) = observed s"
  by (simp add: saveStatus_def observed_def)

lemma observed_broadcastTlsConfig [simp]: "observed (broadcastTlsConfig s) = observed s"
  by (simp add: broadcastTlsConfig_def)

lemma observed_faults [simp]: "observed (handleCardanoFaultInjectionResponse r s) = observed s"
  by (simp add: handleCardanoFaultInjectionResponse_def observed_def)

text \<open>A wait keeps what its condition and everything that runs meanwhile keep.\<close>

lemma promisedCondition_stable:
  "factors P \<Longrightarrow> \<forall>d \<in> set ds. \<forall>x. P x \<longrightarrow> P (d x) \<Longrightarrow>
   \<forall>x. observed (snd (cond x)) = observed x \<Longrightarrow> P s \<Longrightarrow>
   P (snd (promisedCondition cond ds s))"
proof (induction ds arbitrary: s)
  case Nil
  then show ?case by simp
next
  case (Cons d ds)
  obtain b s1 where c: "cond (d s) = (b, s1)" by (cases "cond (d s)")
  have "P (d s)" using Cons.prems(2,4) by (simp del: split_paired_All)
  moreover have "observed s1 = observed (d s)"
    using Cons.prems(3) c by (metis snd_conv)
  ultimately have p1: "P s1"
    using factorsD [OF Cons.prems(1)] by blast
  show ?case
  proof (cases b)
    case True
    with c p1 show ?thesis by simp
  next
    case False
    have "P (snd (promisedCondition cond ds s1))"
      using Cons.IH [of s1] Cons.prems p1 by (simp del: split_paired_All)
    with False c show ?thesis by simp
  qed
qed

lemma wait_stable:
  "stable P T \<Longrightarrow> \<forall>x. observed (snd (cond x)) = observed x \<Longrightarrow> P s \<Longrightarrow>
   P (snd (promisedCondition cond (T site t) s))"
  by (rule promisedCondition_stable) (auto simp: stable_def simp del: split_paired_All)

lemma stable_step: "stable P T \<Longrightarrow> observed x = observed y \<Longrightarrow> P y \<Longrightarrow> P x"
  using factorsD stable_factors by blast

lemma waitForNodeProcessToExit_stable:
  "stable P T \<Longrightarrow> P s \<Longrightarrow> P (snd (waitForNodeProcessToExit T t s))"
  unfolding waitForNodeProcessToExit_def by (rule wait_stable) simp_all

lemma killProcessWithName_stable:
  "stable P T \<Longrightarrow> P s \<Longrightarrow> P (snd (killProcessWithName T p name s))"
proof -
  assume st: "stable P T" and p: "P s"
  have 1: "P (tick s)" "P (emit [ProcessKill p] (tick s))" "P (emit [ExecTaskkill p] s)"
    using stable_step [OF st _ p] by simp_all
  show ?thesis
    unfolding killProcessWithName_def Let_def
    by (auto simp: 1 split: option.splits intro!: wait_stable [OF st])
qed

lemma ensureProcessIsNotRunning_stable:
  "stable P T \<Longrightarrow> P s \<Longrightarrow> P (snd (ensureProcessIsNotRunning T p name s))"
proof -
  assume st: "stable P T" and p: "P s"
  obtain b s1 where r: "isProcessRunning p name s = (b, s1)" by (cases "isProcessRunning p name s")
  have "observed s1 = observed s" using observed_isProcessRunning [of p name s] r by simp
  then have p1: "P s1" using stable_step [OF st _ p] by simp
  show ?thesis
    using killProcessWithName_stable [OF st p1, of p name] p1
    by (simp add: ensureProcessIsNotRunning_def r snd_outcome_case split: bool.splits)
qed


lemma ensureCurrentCardanoNodeIsNotRunning_stable:
  "stable P T \<Longrightarrow> P s \<Longrightarrow> P (snd (ensureCurrentCardanoNodeIsNotRunning T s))"
  by (simp add: ensureCurrentCardanoNodeIsNotRunning_def ensureProcessIsNotRunning_stable
      split: option.splits)

lemma ensurePreviousCardanoNodeIsNotRunning_stable:
  "stable P T \<Longrightarrow> P s \<Longrightarrow> P (snd (ensurePreviousCardanoNodeIsNotRunning T s))"
proof -
  assume st: "stable P T" and p: "P s"
  obtain r s1 where r: "retrieveData s = (r, s1)" by (cases "retrieveData s")
  have "observed s1 = observed s" using observed_retrieveData [of s] r by simp
  then have p1: "P s1" using stable_step [OF st _ p] by simp
  show ?thesis
    using ensureProcessIsNotRunning_stable [OF st p1] p1
    by (simp add: ensurePreviousCardanoNodeIsNotRunning_def r split: outcome.splits option.splits)
qed

lemma canBeStarted_stable:
  "stable P T \<Longrightarrow> P s \<Longrightarrow> P (snd (canBeStarted T s))"
  using ensurePreviousCardanoNodeIsNotRunning_stable [of P T s]
  by (simp add: canBeStarted_def snd_outcome_case)

lemma waitForCardanoToExitOrKillIt_returns:
  "waitForCardanoToExitOrKillIt T s = (Resolved (), snd (isNodeProcessNotRunningAnymore s))"
  by (simp add: waitForCardanoToExitOrKillIt_def split: prod.splits)

lemma observed_kill_catch [simp]: "observed (snd (kill_catch s)) = observed s"
proof -
  obtain r s1 where r: "storeProcessStates s = (r, s1)" by (cases "storeProcessStates s")
  have "observed s1 = observed s" using observed_storeProcessStates [of s] r by simp
  then show ?thesis
    by (cases r) (simp_all add: kill_catch_def r)
qed

lemma observed_kill [simp]: "observed (snd (kill T s)) = observed s"
proof -
  obtain b s1 where d: "isDead s = (b, s1)" by (cases "isDead s")
  have o1: "observed s1 = observed s" using observed_isDead [of s] d by simp
  let ?s2 = "case p_node (fst s) of None \<Rightarrow> s1 | Some c \<Rightarrow> emit [NodeKill (pid c)] s1"
  have o2: "observed ?s2 = observed s" using o1 by (simp split: option.splits)
  let ?s3 = "snd (isNodeProcessNotRunningAnymore ?s2)"
  have o3: "observed ?s3 = observed s" using o2 by simp
  obtain r s4 where r: "storeProcessStates ?s3 = (r, s4)" by (cases "storeProcessStates ?s3")
  have o4: "observed s4 = observed s" using observed_storeProcessStates [of ?s3] r o3 by simp
  show ?thesis
  proof (cases b)
    case True
    with d o1 show ?thesis by (simp add: kill_def)
  next
    case False
    have "observed (snd (kill_catch s4)) = observed s" using o4 by simp
    with False d o4 show ?thesis
      by (cases r) (simp_all add: kill_def Let_def waitForCardanoToExitOrKillIt_returns r)
  qed
qed

lemma stop_stable:
  "stable P T \<Longrightarrow> P s \<Longrightarrow> P (snd (stop T s))"
proof -
  assume st: "stable P T" and p: "P s"
  obtain b s1 where d: "isDead s = (b, s1)" by (cases "isDead s")
  have "observed s1 = observed s" using observed_isDead [of s] d by simp
  then have p1: "P s1" using stable_step [OF st _ p] by simp
  let ?s2 = "changeToState STOPPING None (disconnect s1)"
  have p2: "P ?s2" using stable_step [OF st _ p1] by simp
  show ?thesis
  proof (cases b)
    case True
    with d p1 show ?thesis by (simp add: stop_def)
  next
    case False
    show ?thesis
    proof (cases "p_config (fst s)")
      case None
      have "P (snd (kill T ?s2))" using stable_step [OF st _ p2] by simp
      with None False d show ?thesis
        by (simp add: stop_def Let_def snd_outcome_case)
    next
      case (Some cfg)
      obtain r s3 where w: "waitForNodeProcessToExit T (shutdownTimeout cfg) ?s2 = (r, s3)"
        by (cases "waitForNodeProcessToExit T (shutdownTimeout cfg) ?s2")
      have p3: "P s3" using waitForNodeProcessToExit_stable [OF st p2, of "shutdownTimeout cfg"] w by simp
      obtain r' s4 where sp: "storeProcessStates s3 = (r', s4)" by (cases "storeProcessStates s3")
      have "observed s4 = observed s3" using observed_storeProcessStates [of s3] sp by simp
      then have p4: "P s4" using stable_step [OF st _ p3] by simp
      have k3: "P (snd (kill T s3))" using stable_step [OF st _ p3] by simp
      have k4: "P (snd (kill T s4))" using stable_step [OF st _ p4] by simp
      have r4: "P (reset s4)" using stable_step [OF st _ p4] by simp
      from Some False d w sp p3 p4 k3 k4 r4 show ?thesis
        by (cases r; cases r') (simp_all add: stop_def Let_def snd_outcome_case)
    qed
  qed
qed

lemma expectNodeUpdate_stable:
  "stable P T \<Longrightarrow> P s \<Longrightarrow> P (snd (expectNodeUpdate T s))"
proof -
  assume st: "stable P T" and p: "P s"
  let ?s1 = "changeToState UPDATING None s"
  have p1: "P ?s1" using stable_step [OF st _ p] by simp
  show ?thesis
  proof (cases "p_config (fst s)")
    case None
    have "P (snd (kill T ?s1))" using stable_step [OF st _ p1] by simp
    with None show ?thesis by (simp add: expectNodeUpdate_def Let_def)
  next
    case (Some cfg)
    let ?w = "promisedCondition (\<lambda>x. (p_state (fst x) = UPDATED, x))
                (T AwaitUpdated (Some (updateTimeout cfg))) ?s1"
    obtain r s2 where w: "?w = (r, s2)" by (cases ?w)
    have "P (snd ?w)" by (rule wait_stable [OF st _ p1]) simp
    then have p2: "P s2" using w by simp
    obtain r' s3 where w': "waitForNodeProcessToExit T (updateTimeout cfg) s2 = (r', s3)"
      by (cases "waitForNodeProcessToExit T (updateTimeout cfg) s2")
    have p3: "P s3" using waitForNodeProcessToExit_stable [OF st p2, of "updateTimeout cfg"] w' by simp
    have k2: "P (snd (kill T s2))" using stable_step [OF st _ p2] by simp
    have k3: "P (snd (kill T s3))" using stable_step [OF st _ p3] by simp
    from Some w w' p2 p3 k2 k3 show ?thesis
      by (cases r; cases r') (simp_all add: expectNodeUpdate_def Let_def)
  qed
qed

lemma setFault_stable:
  "stable P T \<Longrightarrow> P s \<Longrightarrow> P (snd (setFault T request s))"
proof -
  assume st: "stable P T" and p: "P s"
  show ?thesis
  proof (cases "p_node (fst s)")
    case None
    with p show ?thesis by (simp add: setFault_def)
  next
    case (Some c)
    let ?s1 = "emit [Send (SetFInject (fst request) (snd request))] s"
    have p1: "P ?s1" using stable_step [OF st _ p] by simp
    have "P (snd (promisedCondition
             (\<lambda>x. (let hasFault = (fst request \<in> set (p_injectedFaults (fst x)))
                    in if snd request then hasFault else \<not> hasFault, x))
             (T AwaitFault None) ?s1))"
      by (rule wait_stable [OF st _ p1]) simp
    with Some show ?thesis
      unfolding setFault_def
      by (simp only: option.case Let_def fst_conv snd_conv snd_outcome_case)
  qed
qed

lemma waitUntilReallyDead_stable:
  "stable P T \<Longrightarrow> P s \<Longrightarrow> P (waitUntilReallyDead T cfg node0 s)"
proof -
  assume st: "stable P T" and p: "P s"
  obtain r s1 where w: "waitForNodeProcessToExit T (shutdownTimeout cfg) s = (r, s1)"
    by (cases "waitForNodeProcessToExit T (shutdownTimeout cfg) s")
  have p1: "P s1" using waitForNodeProcessToExit_stable [OF st p, of "shutdownTimeout cfg"] w by simp
  show ?thesis
    using p1 ensureProcessIsNotRunning_stable [OF st p1]
    by (cases r) (simp_all add: waitUntilReallyDead_def w split: option.splits)
qed

lemma handleCardanoNodeExit_stable:
  "stable P T \<Longrightarrow> P s \<Longrightarrow> P (snd (handleCardanoNodeExit T code signal s))"
proof -
  assume st: "stable P T" and p: "P s"
  let ?s1 = "if p_state (fst s) = RUNNING then changeToState EXITING None s else s"
  have p1: "P ?s1" using stable_step [OF st _ p] p by simp
  show ?thesis
  proof (cases "p_config (fst s)")
    case None
    with p1 show ?thesis by (simp add: handleCardanoNodeExit_def Let_def)
  next
    case (Some cfg)
    let ?s2 = "waitUntilReallyDead T cfg (p_node (fst s)) ?s1"
    have p2: "P ?s2" by (rule waitUntilReallyDead_stable [OF st p1])
    have "\<And>st' args. st' \<noteq> STARTING \<Longrightarrow> st' \<noteq> RUNNING \<Longrightarrow> P (reset (changeToState st' args ?s2))"
      using stable_step [OF st _ p2] by simp
    with Some show ?thesis
      by (simp add: handleCardanoNodeExit_def Let_def)
  qed
qed


section \<open>The exit handler\<close>

text \<open>
  C1 (as the code has it). Let \<open>m\<close> be the state of the supervisor when the exit handler
  has finished waiting for the process to be gone (and, after a timeout, its attempt to
  kill it). The state the handler leaves is \<open>STOPPED\<close> if \<open>m\<close> is in \<open>STOPPING\<close>;
  \<open>UPDATED\<close> if \<open>m\<close> is in \<open>UPDATING\<close> and the exit code is 20; otherwise \<open>UNRECOVERABLE\<close>
  if the startup tries have reached \<open>startupMaxRetries\<close>, and \<open>CRASHED\<close> if not. So an
  exit is classified \<open>UPDATED\<close> exactly when the code is 20 during \<open>UPDATING\<close>; a code 20
  outside \<open>UPDATING\<close> gives \<open>STOPPED\<close>, \<open>UNRECOVERABLE\<close> or \<open>CRASHED\<close>.
\<close>

theorem exit_classification:
  "p_config (fst s) = Some cfg \<Longrightarrow>
   (let m = waitUntilReallyDead T cfg (p_node (fst s))
              (if p_state (fst s) = RUNNING then changeToState EXITING None s else s);
        final = p_state (fst (snd (handleCardanoNodeExit T code signal s)))
    in final = (if p_state (fst m) = STOPPING then STOPPED
                else if p_state (fst m) = UPDATING \<and> code = 20 then UPDATED
                else if startupMaxRetries cfg \<le> p_startupTries (fst m) then UNRECOVERABLE
                else CRASHED) \<and>
       (final = UPDATED \<longleftrightarrow> p_state (fst m) = UPDATING \<and> code = 20))"
  by (simp add: handleCardanoNodeExit_def Let_def reset_state changeToState_state
        isUnrecoverable_def CARDANO_UPDATE_EXIT_CODE_def)

text \<open>An exit with code 20 of a child that is gone, during \<open>UPDATING\<close>: \<open>UPDATED\<close>.\<close>

theorem exit_classification_witness:
  "p_config (example_node UPDATING True 0 2) = Some (example_config 2) \<and>
   p_state (fst (snd (handleCardanoNodeExit quiet 20 []
                        (example_node UPDATING True 0 2, example_world NotFound)))) = UPDATED"
proof -
  let ?s = "(example_node UPDATING True 0 2, example_world NotFound)"
  have h: "p_config (fst ?s) = Some (example_config 2)"
    by (simp add: example_node_def)
  have m: "p_state (fst (waitUntilReallyDead quiet (example_config 2) (p_node (fst ?s)) ?s))
           = UPDATING"
    by (simp add: waitUntilReallyDead_def op_defs probe_defs example_defs)
  have r: "p_state (fst ?s) \<noteq> RUNNING"
    by (simp add: example_node_def)
  from exit_classification [OF h, of quiet 20 "[]"] m r h show ?thesis
    by (simp add: Let_def)
qed

text \<open>
  C1 (as stated) fails: with \<open>startupMaxRetries = 1\<close>, the child of the first start
  exits with code 20 while the supervisor is in \<open>STARTING\<close>, outside \<open>UPDATING\<close>; the exit
  is classified \<open>UNRECOVERABLE\<close>, not \<open>CRASHED\<close>.
\<close>

theorem exit_code_20_outside_UPDATING_counterexample:
  "p_state (example_node STARTING True 1 1) \<noteq> UPDATING \<and>
   p_state (fst (snd (handleCardanoNodeExit quiet 20 []
                        (example_node STARTING True 1 1, example_world NotFound))))
     = UNRECOVERABLE \<and>
   p_state (fst (snd (handleCardanoNodeExit quiet 20 []
                        (example_node STARTING True 1 1, example_world NotFound))))
     \<noteq> CRASHED"
  by (simp add: handleCardanoNodeExit_def waitUntilReallyDead_def isUnrecoverable_def
      CARDANO_UPDATE_EXIT_CODE_def op_defs probe_defs example_defs)

section \<open>Inbound \<open>ReplyPort\<close> frames\<close>

lemmas msg_defs = handleCardanoNodeMessage_def handleCardanoReplyPortMessage_def
  handleCardanoFaultInjectionResponse_def broadcastTlsConfig_def changeToState_def emit_def

lemma message_keeps:
  "p_config (fst (snd (handleCardanoNodeMessage msg s))) = p_config (fst s) \<and>
   readFileSync (snd (snd (handleCardanoNodeMessage msg s))) = readFileSync (snd s)"
  by (simp add: msg_defs Let_def split: option.splits)

lemma message_not_starting:
  "p_state (fst s) \<noteq> STARTING \<Longrightarrow>
   p_state (fst (snd (handleCardanoNodeMessage msg s))) = p_state (fst s) \<and>
   p_startupTries (fst (snd (handleCardanoNodeMessage msg s))) = p_startupTries (fst s) \<and>
   effects (snd (snd (handleCardanoNodeMessage msg s))) = effects (snd s)"
  by (simp add: msg_defs Let_def split: option.splits)

lemma message_starting_no_port:
  "msg = None \<or> (\<exists>m. msg = Some m \<and> ReplyPort m = None) \<Longrightarrow>
   p_state (fst (snd (handleCardanoNodeMessage msg s))) = p_state (fst s) \<and>
   effects (snd (snd (handleCardanoNodeMessage msg s))) = effects (snd s)"
  by (auto simp add: msg_defs Let_def split: option.splits)

lemma message_starting_port:
  "p_state (fst s) = STARTING \<Longrightarrow> p_config (fst s) = Some cfg \<Longrightarrow> tls_readable cfg (snd s) \<Longrightarrow>
   msg = Some m \<Longrightarrow> ReplyPort m = Some p \<Longrightarrow>
   p_state (fst (snd (handleCardanoNodeMessage msg s))) = RUNNING \<and>
   p_startupTries (fst (snd (handleCardanoNodeMessage msg s))) = 0 \<and>
   (\<exists>c. port c = p \<and> effects (snd (snd (handleCardanoNodeMessage msg s))) =
      effects (snd s) @ [BroadcastStateChange RUNNING, OnRunning, BroadcastTlsConfig (Some c)])"
  by (auto simp add: msg_defs tls_readable_def Let_def split: option.splits)

lemma receive_Cons:
  "receive (msg # frames) s = receive frames (snd (handleCardanoNodeMessage msg s))"
  by (simp add: receive_def)

lemma receive_not_starting:
  "p_state (fst s) \<noteq> STARTING \<Longrightarrow>
   p_state (fst (receive frames s)) = p_state (fst s) \<and>
   p_startupTries (fst (receive frames s)) = p_startupTries (fst s) \<and>
   effects (snd (receive frames s)) = effects (snd s)"
proof (induction frames arbitrary: s)
  case Nil
  then show ?case by (simp add: receive_def)
next
  case (Cons msg frames)
  let ?s1 = "snd (handleCardanoNodeMessage msg s)"
  from message_not_starting [OF Cons.prems, of msg]
  have 1: "p_state (fst ?s1) = p_state (fst s)" "effects (snd ?s1) = effects (snd s)"
    "p_startupTries (fst ?s1) = p_startupTries (fst s)"
    by simp_all
  with Cons.prems have "p_state (fst ?s1) \<noteq> STARTING" by simp
  from Cons.IH [OF this] 1 show ?case
    by (simp add: receive_Cons)
qed

lemma receive_starting:
  "p_state (fst s) = STARTING \<Longrightarrow> p_config (fst s) = Some cfg \<Longrightarrow> tls_readable cfg (snd s) \<Longrightarrow>
   (if \<exists>m. Some m \<in> set frames \<and> ReplyPort m \<noteq> None
    then p_state (fst (receive frames s)) = RUNNING \<and>
         p_startupTries (fst (receive frames s)) = 0 \<and>
         running_entries (effects (snd (receive frames s))) = running_entries (effects (snd s)) + 1 \<and>
         tls_broadcasts (effects (snd (receive frames s))) = tls_broadcasts (effects (snd s)) + 1
    else p_state (fst (receive frames s)) = STARTING \<and>
         effects (snd (receive frames s)) = effects (snd s))"
proof (induction frames arbitrary: s)
  case Nil
  then show ?case by (simp add: receive_def)
next
  case (Cons msg frames)
  let ?s1 = "snd (handleCardanoNodeMessage msg s)"
  have keep: "p_config (fst ?s1) = Some cfg" "tls_readable cfg (snd ?s1)"
    using message_keeps [of msg s] Cons.prems by (simp_all add: tls_readable_def)
  show ?case
  proof (cases "\<exists>m p. msg = Some m \<and> ReplyPort m = Some p")
    case True
    then obtain m p where mp: "msg = Some m" "ReplyPort m = Some p" by blast
    from message_starting_port [OF Cons.prems mp]
    obtain c where 1: "p_state (fst ?s1) = RUNNING" "p_startupTries (fst ?s1) = 0"
      "effects (snd ?s1) = effects (snd s) @ [BroadcastStateChange RUNNING, OnRunning, BroadcastTlsConfig (Some c)]"
      by blast
    have 2: "p_state (fst ?s1) \<noteq> STARTING" using 1 by simp
    have ex: "\<exists>m. Some m \<in> set (msg # frames) \<and> ReplyPort m \<noteq> None"
      using mp by auto
    from receive_not_starting [OF 2, of frames] 1 show ?thesis
      unfolding if_P [OF ex]
      by (simp add: receive_Cons running_entries_def tls_broadcasts_def)
  next
    case False
    then have np: "msg = None \<or> (\<exists>m. msg = Some m \<and> ReplyPort m = None)"
      by (cases msg) auto
    from message_starting_no_port [OF np, of s] Cons.prems
    have 1: "p_state (fst ?s1) = STARTING" "effects (snd ?s1) = effects (snd s)"
      by simp_all
    have "(\<exists>m. Some m \<in> set (msg # frames) \<and> ReplyPort m \<noteq> None) =
          (\<exists>m. Some m \<in> set frames \<and> ReplyPort m \<noteq> None)"
      using False by auto
    with Cons.IH [OF 1(1) keep] 1 show ?thesis
      by (simp add: receive_Cons)
  qed
qed


text \<open>
  C2. The supervisor has a config and the three TLS files can be read. If it is in
  \<open>STARTING\<close> and receives any sequence of frames with at least one \<open>ReplyPort\<close>, it ends
  in \<open>RUNNING\<close>, and the sequence has produced exactly one transition into \<open>RUNNING\<close> and
  exactly one broadcast of the TLS config, however many \<open>ReplyPort\<close> frames there are. If
  it is in any state other than \<open>STARTING\<close>, no sequence of frames changes the state or
  produces a broadcast, and a \<open>ReplyPort\<close> frame replaces the stored TLS config by the
  one with the new port and changes nothing else.
\<close>

theorem replyPort_running_once:
  "p_config (fst s) = Some cfg \<Longrightarrow>
   readFileSync (snd s) (tlsPath cfg @ ''/client/ca.crt'') = Some ca0 \<Longrightarrow>
   readFileSync (snd s) (tlsPath cfg @ ''/client/client.key'') = Some key0 \<Longrightarrow>
   readFileSync (snd s) (tlsPath cfg @ ''/client/client.pem'') = Some cert0 \<Longrightarrow>
   (p_state (fst s) = STARTING \<and> (\<exists>m. Some m \<in> set frames \<and> ReplyPort m \<noteq> None) \<longrightarrow>
      p_state (fst (receive frames s)) = RUNNING \<and>
      running_entries (effects (snd (receive frames s))) = running_entries (effects (snd s)) + 1 \<and>
      tls_broadcasts (effects (snd (receive frames s))) = tls_broadcasts (effects (snd s)) + 1) \<and>
   (p_state (fst s) \<noteq> STARTING \<longrightarrow>
      p_state (fst (receive frames s)) = p_state (fst s) \<and>
      effects (snd (receive frames s)) = effects (snd s) \<and>
      handleCardanoReplyPortMessage p s =
        (Resolved (),
         ((fst s)\<lparr>p_tlsConfig := Some \<lparr>ca = ca0, key = key0, cert = cert0,
                                         hostname = ''localhost'', port = p\<rparr>\<rparr>, snd s)))"
proof (intro conjI impI)
  assume c: "p_config (fst s) = Some cfg"
    and "readFileSync (snd s) (tlsPath cfg @ ''/client/ca.crt'') = Some ca0"
    and "readFileSync (snd s) (tlsPath cfg @ ''/client/client.key'') = Some key0"
    and "readFileSync (snd s) (tlsPath cfg @ ''/client/client.pem'') = Some cert0"
    and st: "p_state (fst s) = STARTING \<and> (\<exists>m. Some m \<in> set frames \<and> ReplyPort m \<noteq> None)"
  then have t: "tls_readable cfg (snd s)"
    by (simp add: tls_readable_def)
  from receive_starting [OF _ c t, of frames] st
  show "p_state (fst (receive frames s)) = RUNNING"
    and "running_entries (effects (snd (receive frames s))) = running_entries (effects (snd s)) + 1"
    and "tls_broadcasts (effects (snd (receive frames s))) = tls_broadcasts (effects (snd s)) + 1"
    by simp_all
next
  assume "p_state (fst s) \<noteq> STARTING"
  from receive_not_starting [OF this, of frames]
  show "p_state (fst (receive frames s)) = p_state (fst s)"
    and "effects (snd (receive frames s)) = effects (snd s)"
    by simp_all
next
  assume "p_config (fst s) = Some cfg"
    and "readFileSync (snd s) (tlsPath cfg @ ''/client/ca.crt'') = Some ca0"
    and "readFileSync (snd s) (tlsPath cfg @ ''/client/client.key'') = Some key0"
    and "readFileSync (snd s) (tlsPath cfg @ ''/client/client.pem'') = Some cert0"
    and "p_state (fst s) \<noteq> STARTING"
  then show "handleCardanoReplyPortMessage p s =
        (Resolved (),
         ((fst s)\<lparr>p_tlsConfig := Some \<lparr>ca = ca0, key = key0, cert = cert0,
                                         hostname = ''localhost'', port = p\<rparr>\<rparr>, snd s))"
    by (simp add: handleCardanoReplyPortMessage_def Let_def)
qed

text \<open>
  Two \<open>ReplyPort\<close> frames in \<open>STARTING\<close>: one entry into \<open>RUNNING\<close>, one broadcast. One
  \<open>ReplyPort\<close> frame in \<open>RUNNING\<close>: nothing is broadcast.
\<close>

theorem replyPort_running_once_witness:
  "p_config (example_node STARTING True 1 2) = Some (example_config 2) \<and>
   readFileSync (example_world Found) (tlsPath (example_config 2) @ ''/client/ca.crt'') = Some ''pem'' \<and>
   p_state (example_node STARTING True 1 2) = STARTING \<and>
   p_state (fst (receive [port_frame 8090, port_frame 8090] (example_node STARTING True 1 2, example_world Found))) = RUNNING \<and>
   running_entries (effects (snd (receive [port_frame 8090, port_frame 8090] (example_node STARTING True 1 2, example_world Found)))) = 1 \<and>
   tls_broadcasts (effects (snd (receive [port_frame 8090, port_frame 8090] (example_node STARTING True 1 2, example_world Found)))) = 1 \<and>
   p_state (example_node RUNNING True 0 2) \<noteq> STARTING \<and>
   effects (snd (receive [port_frame 8091] (example_node RUNNING True 0 2, example_world Found))) = []"
proof -
  let ?s = "(example_node STARTING True 1 2, example_world Found)"
  let ?r = "(example_node RUNNING True 0 2, example_world Found)"
  let ?fs = "[port_frame 8090, port_frame 8090]"
  have c: "p_config (fst ?s) = Some (example_config 2)" "p_config (fst ?r) = Some (example_config 2)"
    by (simp_all add: example_node_def)
  have t: "readFileSync (snd ?s) (tlsPath (example_config 2) @ ''/client/ca.crt'') = Some ''pem''"
     "readFileSync (snd ?s) (tlsPath (example_config 2) @ ''/client/client.key'') = Some ''pem''"
     "readFileSync (snd ?s) (tlsPath (example_config 2) @ ''/client/client.pem'') = Some ''pem''"
     "readFileSync (snd ?r) (tlsPath (example_config 2) @ ''/client/ca.crt'') = Some ''pem''"
     "readFileSync (snd ?r) (tlsPath (example_config 2) @ ''/client/client.key'') = Some ''pem''"
     "readFileSync (snd ?r) (tlsPath (example_config 2) @ ''/client/client.pem'') = Some ''pem''"
    by (simp_all add: example_world_def)
  have st: "p_state (fst ?s) = STARTING" "p_state (fst ?r) \<noteq> STARTING"
    by (simp_all add: example_node_def)
  have f: "\<exists>m. Some m \<in> set ?fs \<and> ReplyPort m \<noteq> None"
    by (simp add: port_frame_def)
  have e: "running_entries (effects (snd ?s)) = 0" "tls_broadcasts (effects (snd ?s)) = 0" "effects (snd ?r) = []"
    by (simp_all add: running_entries_def tls_broadcasts_def example_world_def)
  from replyPort_running_once [OF c(1) t(1,2,3), of ?fs 8090]
       replyPort_running_once [OF c(2) t(4,5,6), of "[port_frame 8091]" 8091] c t st f e
  show ?thesis by simp
qed

section \<open>The counter of startup tries\<close>

lemma account_filter: "fold account (filter relevant es) k = fold account es k"
proof (induction es arbitrary: k)
  case Nil
  then show ?case by simp
next
  case (Cons e es)
  then show ?case by (cases e) simp_all
qed

lemma factors_tries_inv: "factors tries_inv"
  unfolding factors_def tries_inv_def startup_tries_spec_def observed_def
  by (metis account_filter fst_conv snd_conv)

lemma rely_stable: "rely T \<Longrightarrow> stable tries_inv T"
  unfolding rely_def stable_def using factors_tries_inv by blast

lemma tries_inv_step: "observed x = observed y \<Longrightarrow> tries_inv y \<Longrightarrow> tries_inv x"
  using factorsD [OF factors_tries_inv] by blast

lemma replyPort_tries_inv:
  "tries_inv s \<Longrightarrow> tries_inv (snd (handleCardanoReplyPortMessage p s))"
  by (simp add: handleCardanoReplyPortMessage_def tries_inv_def startup_tries_spec_def
        broadcastTlsConfig_def changeToState_def emit_def Let_def split: option.splits)

lemma message_tries_inv:
  "tries_inv s \<Longrightarrow> tries_inv (snd (handleCardanoNodeMessage msg s))"
proof -
  assume p: "tries_inv s"
  show ?thesis
  proof (cases msg)
    case None
    with p show ?thesis by (simp add: handleCardanoNodeMessage_def)
  next
    case (Some m)
    let ?r = "case ReplyPort m of None \<Rightarrow> (Resolved (), s)
              | Some p \<Rightarrow> handleCardanoReplyPortMessage p s"
    obtain r s1 where r: "?r = (r, s1)" by (cases ?r)
    have "tries_inv (snd ?r)" using p replyPort_tries_inv by (simp split: option.splits)
    then have p1: "tries_inv s1" using r by simp
    then have "tries_inv (handleCardanoFaultInjectionResponse x s1)" for x
      using tries_inv_step by simp
    with Some r p1 show ?thesis
      by (cases r) (simp_all add: handleCardanoNodeMessage_def split: option.splits)
  qed
qed

lemma start_promise_tries_inv:
  "rely T \<Longrightarrow> tries_inv s \<Longrightarrow> tries_inv (snd (start_promise T config s))"
proof -
  assume rl: "rely T" and p: "tries_inv s"
  note st = rely_stable [OF rl]
  let ?s1 = "tick ((fst s)\<lparr>p_cardanoLogFile := Some (logFilePath config)\<rparr>, snd s)"
  let ?s2 = "emit [Spawn (nodePath config) (nodeArgs config)] (tick ?s1)"
  let ?s3 = "((fst ?s2)\<lparr>p_node := Some (spawned (snd ?s1) (clock (snd ?s1)))\<rparr>, snd ?s2)"
  have p3: "tries_inv ?s3"
    using p by (simp add: tries_inv_def startup_tries_spec_def emit_def tick_def)
  let ?w = "promisedCondition (\<lambda>x. (isConnected (fst x), x))
              (T AwaitConnected (Some (startupTimeout config))) ?s3"
  obtain r s4 where w: "?w = (r, s4)" by (cases ?w)
  have "tries_inv (snd ?w)" by (rule wait_stable [OF st _ p3]) simp
  then have p4: "tries_inv s4" using w by simp
  then have p5: "tries_inv (emit [Send QueryPort]
         ((fst s4)\<lparr>p_node := map_option (\<lambda>c. c\<lparr>listeners := True\<rparr>) (p_node (fst s4))\<rparr>, snd s4))"
    by (simp add: tries_inv_def startup_tries_spec_def emit_def)
  show ?thesis
  proof (cases "logFileOpens (snd s) (clock (snd s))")
    case False
    with p show ?thesis
      using tries_inv_step [of "tick s" s] by (simp add: start_promise_def)
  next
    case True
    with w p4 p5 show ?thesis
      by (cases r) (simp_all add: start_promise_def Let_def)
  qed
qed

lemma start_tries_inv:
  "rely T \<Longrightarrow> tries_inv s \<Longrightarrow> tries_inv (snd (start T config isForced s))"
proof -
  assume rl: "rely T" and p: "tries_inv s"
  obtain b s1 where c: "canBeStarted T s = (b, s1)" by (cases "canBeStarted T s")
  have p1: "tries_inv s1"
    using canBeStarted_stable [OF rely_stable [OF rl] p] c by simp
  let ?s2 = "changeToState STARTING None
               ((fst s1)\<lparr>p_config := Some config,
                         p_startupTries := Suc (p_startupTries (fst s1))\<rparr>, snd s1)"
  have "tries_inv ?s2"
    using p1 by (simp add: tries_inv_def startup_tries_spec_def changeToState_def emit_def)
  then have "tries_inv (snd (start_promise T config ?s2))"
    by (rule start_promise_tries_inv [OF rl])
  with c p1 show ?thesis
    by (cases b) (simp_all add: start_def)
qed

lemma restart_tries_inv:
  "rely T \<Longrightarrow> tries_inv s \<Longrightarrow> tries_inv (snd (restart T isForced s))"
proof -
  assume rl: "rely T" and p: "tries_inv s"
  note st = rely_stable [OF rl]
  let ?a = "if isConnected (fst s) then stop T s else (Resolved (), s)"
  obtain r s1 where a: "?a = (r, s1)" by (cases ?a)
  have "tries_inv (snd ?a)" using stop_stable [OF st p] p by simp
  then have p1: "tries_inv s1" using a by simp
  let ?s2 = "snd (isNodeProcessNotRunningAnymore s1)"
  have p2: "tries_inv ?s2" using tries_inv_step [OF _ p1] by simp
  let ?b = "case p_config (fst s) of
              Some cfg \<Rightarrow> start T cfg isForced ?s2
            | None \<Rightarrow> (case canBeStarted T ?s2 of
                         (False, s3) \<Rightarrow> (Rejected CannotBeStarted, s3)
                       | (True, s3) \<Rightarrow> (Rejected TypeError, s3))"
  obtain r' s4 where b: "?b = (r', s4)" by (cases ?b)
  let ?c = "case canBeStarted T ?s2 of
               (False, s3) \<Rightarrow> (Rejected CannotBeStarted, s3)
             | (True, s3) \<Rightarrow> (Rejected TypeError, s3)"
  have eq: "snd ?c = snd (canBeStarted T ?s2)"
    by (simp split: prod.splits bool.splits)
  have cb: "tries_inv (snd ?c)"
    unfolding eq by (rule canBeStarted_stable [OF st p2])
  have "tries_inv (snd ?b)"
  proof (cases "p_config (fst s)")
    case None
    then have "?b = ?c" by simp
    with cb show ?thesis by simp
  next
    case (Some cfg)
    then have "?b = start T cfg isForced ?s2" by simp
    with start_tries_inv [OF rl p2] show ?thesis by simp
  qed
  then have p4: "tries_inv s4" using b by simp
  have e: "\<And>x. tries_inv x \<Longrightarrow> tries_inv (changeToState ERRORED None x)"
    using tries_inv_step by simp
  from a b p1 p4 e show ?thesis
    by (cases r; cases r')
       (simp_all add: restart_def Let_def waitForCardanoToExitOrKillIt_returns)
qed

lemma error_tries_inv:
  "rely T \<Longrightarrow> tries_inv s \<Longrightarrow> tries_inv (snd (handleCardanoNodeError T s))"
proof -
  assume rl: "rely T" and p: "tries_inv s"
  have "tries_inv (emit [OnError] (changeToState ERRORED None s))"
    using tries_inv_step [OF _ p] by simp
  then show ?thesis
    unfolding handleCardanoNodeError_def by (rule restart_tries_inv [OF rl])
qed

lemma perform_tries_inv:
  "rely T \<Longrightarrow> tries_inv s \<Longrightarrow> tries_inv (perform T op s)"
proof -
  assume rl: "rely T" and p: "tries_inv s"
  note st = rely_stable [OF rl]
  show ?thesis
  proof (cases op)
    case (Start config isForced)
    then show ?thesis using start_tries_inv [OF rl p] by simp
  next
    case Stop
    then show ?thesis using stop_stable [OF st p] by simp
  next
    case Kill
    then show ?thesis using tries_inv_step [OF _ p] by simp
  next
    case (Restart isForced)
    then show ?thesis using restart_tries_inv [OF rl p] by simp
  next
    case BroadcastTls
    then show ?thesis using tries_inv_step [OF _ p] by simp
  next
    case ExpectNodeUpdate
    then show ?thesis using expectNodeUpdate_stable [OF st p] by simp
  next
    case (SetFault fault isEnabled)
    then show ?thesis using setFault_stable [OF st p] by simp
  next
    case (SaveStatus status)
    then show ?thesis using tries_inv_step [OF _ p] by simp
  next
    case (Message msg)
    then show ?thesis using message_tries_inv [OF p] by simp
  next
    case (Exit code signal)
    then show ?thesis using handleCardanoNodeExit_stable [OF st p] by simp
  next
    case Error
    then show ?thesis using error_tries_inv [OF rl p] by simp
  next
    case ChannelClosed
    then show ?thesis using tries_inv_step [OF _ p] by simp
  qed
qed

lemma run_tries_inv:
  "\<forall>(T, op) \<in> set trace. rely T \<Longrightarrow> tries_inv s \<Longrightarrow> tries_inv (run trace s)"
proof (induction trace arbitrary: s)
  case Nil
  then show ?case by (simp add: run_def)
next
  case (Cons a trace)
  obtain T op where a: "a = (T, op)" by (cases a)
  have "rely T" using Cons.prems(1) a by simp
  then have "tries_inv (perform T op s)" using Cons.prems(2) by (rule perform_tries_inv)
  moreover have "\<forall>(T, op) \<in> set trace. rely T" using Cons.prems(1) by simp
  ultimately have "tries_inv (run trace (perform T op s))" by (rule Cons.IH [rotated])
  then show ?case by (simp add: run_def a)
qed

lemma spec_after_running:
  "BroadcastStateChange STARTING \<notin> set es' \<Longrightarrow>
   startup_tries_spec (es @ BroadcastStateChange RUNNING # es') = 0"
proof -
  assume n: "BroadcastStateChange STARTING \<notin> set es'"
  have "fold account es' 0 = 0" using n
  proof (induction es' rule: rev_induct)
    case Nil
    then show ?case by simp
  next
    case (snoc e es')
    then show ?case by (cases e) auto
  qed
  then show ?thesis by (simp add: startup_tries_spec_def)
qed

lemma rely_calm: "calm T \<Longrightarrow> rely T"
  unfolding calm_def rely_def using tries_inv_step by metis

lemma rely_quiet: "rely quiet"
  by (simp add: rely_def quiet_def)

lemma rely_update_timing: "rely update_timing"
proof -
  have "tries_inv x \<Longrightarrow> tries_inv (perform quiet op x)" for x op
    by (rule perform_tries_inv [OF rely_quiet])
  then show ?thesis
    unfolding rely_def update_timing_def by (auto simp del: perform.simps)
qed

lemma start_update_restart_tries:
  "p_startupTries (fst (run start_update_restart (initial, example_world NotFound))) = 1"
  by (simp add: all_defs)

text \<open>
  C3 (as the code has it). Take any trace of operations and channel events from a new
  supervisor, where what runs during the waits keeps the account (as every operation and
  every event does, by \<open>perform_tries_inv\<close>). At the end of the trace, and so after each
  of its steps, \<open>startup_tries\<close> is what the specification says: the number of entries
  into \<open>STARTING\<close> since the last entry into \<open>RUNNING\<close>. It is one more for every entry
  into \<open>STARTING\<close> (only \<open>start\<close> enters it), and \<open>0\<close> whenever \<open>RUNNING\<close> was entered
  and \<open>STARTING\<close> was not entered since. The steps are whole handlers: the counter is
  \<open>0\<close> once the handler of \<open>ReplyPort\<close> that entered \<open>RUNNING\<close> has returned.
\<close>

theorem startup_tries_accounting:
  "\<forall>(T, op) \<in> set trace. rely T \<Longrightarrow> effects w = [] \<Longrightarrow>
   p_startupTries (fst (run trace (initial, w)))
     = startup_tries_spec (effects (snd (run trace (initial, w)))) \<and>
   (\<forall>es es'. effects (snd (run trace (initial, w))) = es @ BroadcastStateChange RUNNING # es' \<and>
              BroadcastStateChange STARTING \<notin> set es'
      \<longrightarrow> p_startupTries (fst (run trace (initial, w))) = 0)"
proof -
  assume r: "\<forall>(T, op) \<in> set trace. rely T" and w: "effects w = []"
  have "tries_inv (initial, w)"
    using w by (simp add: tries_inv_def startup_tries_spec_def initial_def)
  with r have "tries_inv (run trace (initial, w))"
    by (rule run_tries_inv)
  then have i: "p_startupTries (fst (run trace (initial, w)))
     = startup_tries_spec (effects (snd (run trace (initial, w))))"
    by (simp add: tries_inv_def)
  show ?thesis
    using i spec_after_running by auto
qed

text \<open>
  Start, \<open>ReplyPort\<close>, an update during whose wait the child exits with code 20, and a
  restart: the counter is 1, as the account of the transitions says.
\<close>

theorem startup_tries_accounting_witness:
  "rely quiet \<and> rely update_timing \<and> effects (example_world NotFound) = [] \<and>
   p_startupTries (fst (run start_update_restart (initial, example_world NotFound))) = 1 \<and>
   startup_tries_spec (effects (snd (run start_update_restart (initial, example_world NotFound)))) = 1"
proof -
  have r: "\<forall>(T, op) \<in> set start_update_restart. rely T"
    using rely_quiet rely_update_timing by (simp add: start_update_restart_def)
  have w: "effects (example_world NotFound) = []"
    by (simp add: example_world_def)
  from startup_tries_accounting [OF r w] start_update_restart_tries w
       rely_quiet rely_update_timing
  show ?thesis
    by simp
qed

text \<open>
  C3 (as stated) fails at the moment it names. The supervisor is in \<open>STARTING\<close> after one
  start and receives \<open>ReplyPort 8090\<close>. Right after the transition into \<open>RUNNING\<close> (state
  set, change broadcast, listener called) the counter is still 1 and the account of the
  transitions does not hold; the handler then broadcasts the TLS config and only then
  assigns \<open>0\<close>: what it returns is that state with the broadcast added and the counter
  reset.
\<close>

theorem startup_tries_after_RUNNING_transition_counterexample:
  "p_state (fst after_RUNNING_transition) = RUNNING \<and>
   effects (snd after_RUNNING_transition) = [BroadcastStateChange RUNNING, OnRunning] \<and>
   p_startupTries (fst after_RUNNING_transition) = 1 \<and>
   startup_tries_spec (effects (snd after_RUNNING_transition)) = 0 \<and>
   \<not> tries_inv after_RUNNING_transition \<and>
   p_startupTries (fst (broadcastTlsConfig after_RUNNING_transition)) = 1 \<and>
   handleCardanoReplyPortMessage 8090 (example_node STARTING True 1 2, example_world Found) =
     (Resolved (),
      ((fst (broadcastTlsConfig after_RUNNING_transition))\<lparr>p_startupTries := 0\<rparr>,
       snd (broadcastTlsConfig after_RUNNING_transition)))"
  by (simp add: after_RUNNING_transition_def handleCardanoReplyPortMessage_def
        broadcastTlsConfig_def changeToState_def emit_def tries_inv_def
        startup_tries_spec_def example_defs Let_def)

section \<open>The retry guard of \<open>start\<close>\<close>

lemma calm_stable: "calm T \<Longrightarrow> stable (\<lambda>x. observed x = c) T"
  unfolding calm_def stable_def factors_def by auto

lemma calm_quiet: "calm quiet"
  by (simp add: calm_def quiet_def)

lemma start_promise_observed:
  "calm T \<Longrightarrow>
   observed (snd (start_promise T config s)) =
     (p_startupTries (fst s),
      filter relevant (effects (snd s)) @
        (if logFileOpens (snd s) (clock (snd s)) then [Spawn (nodePath config) (nodeArgs config)] else []))"
proof -
  assume c: "calm T"
  let ?o = "(p_startupTries (fst s), filter relevant (effects (snd s)) @ [Spawn (nodePath config) (nodeArgs config)])"
  note st = calm_stable [OF c, of ?o]
  let ?s1 = "tick ((fst s)\<lparr>p_cardanoLogFile := Some (logFilePath config)\<rparr>, snd s)"
  let ?s2 = "emit [Spawn (nodePath config) (nodeArgs config)] (tick ?s1)"
  let ?s3 = "((fst ?s2)\<lparr>p_node := Some (spawned (snd ?s1) (clock (snd ?s1)))\<rparr>, snd ?s2)"
  have p3: "observed ?s3 = ?o"
    by (simp add: observed_def emit_def tick_def)
  let ?w = "promisedCondition (\<lambda>x. (isConnected (fst x), x))
              (T AwaitConnected (Some (startupTimeout config))) ?s3"
  obtain r s4 where w: "?w = (r, s4)" by (cases ?w)
  have "observed (snd ?w) = ?o" by (rule wait_stable [OF st _ p3]) simp
  then have p4: "observed s4 = ?o" using w by simp
  then have p5: "observed (emit [Send QueryPort]
         ((fst s4)\<lparr>p_node := map_option (\<lambda>c. c\<lparr>listeners := True\<rparr>) (p_node (fst s4))\<rparr>, snd s4)) = ?o"
    by (simp add: observed_def emit_def)
  show ?thesis
  proof (cases "logFileOpens (snd s) (clock (snd s))")
    case False
    then show ?thesis
      by (simp add: start_promise_def observed_def tick_def)
  next
    case True
    with w p4 p5 show ?thesis
      by (cases r) (simp_all add: start_promise_def Let_def)
  qed
qed

lemma start_promise_outcome:
  "fst (start_promise T config s) \<noteq> Rejected TooManyStartupRetries \<and>
   fst (start_promise T config s) \<noteq> Rejected CannotBeStarted"
  by (simp add: start_promise_def Let_def split: prod.splits outcome.splits)

lemma start_guard_counter:
  "calm T \<Longrightarrow> fst (canBeStarted T s) \<Longrightarrow> startupMaxRetries cfg \<le> p_startupTries (fst s) \<Longrightarrow>
   fst (start T cfg False s) = Rejected TooManyStartupRetries \<and>
   observed (snd (start T cfg False s)) = observed s \<and>
   fst (start T cfg True s) \<noteq> Rejected TooManyStartupRetries \<and>
   fst (start T cfg True s) \<noteq> Rejected CannotBeStarted \<and>
   observed (snd (start T cfg True s)) =
     (Suc (p_startupTries (fst s)),
      filter relevant (effects (snd s)) @ BroadcastStateChange STARTING #
        (if logFileOpens (snd (snd (canBeStarted T s))) (clock (snd (snd (canBeStarted T s))))
         then [Spawn (nodePath cfg) (nodeArgs cfg)] else []))"
proof -
  assume c: "calm T" and can: "fst (canBeStarted T s)"
    and n: "startupMaxRetries cfg \<le> p_startupTries (fst s)"
  obtain s1 where s1: "canBeStarted T s = (True, s1)"
    using can by (cases "canBeStarted T s") simp
  have "observed (snd (canBeStarted T s)) = observed s"
    by (rule canBeStarted_stable [OF calm_stable [OF c]]) simp
  then have o1: "observed s1 = observed s" using s1 by simp
  then have t1: "p_startupTries (fst s1) = p_startupTries (fst s)"
    and e1: "filter relevant (effects (snd s1)) = filter relevant (effects (snd s))"
    by (simp_all add: observed_def)
  let ?s2 = "changeToState STARTING None
               ((fst s1)\<lparr>p_config := Some cfg,
                         p_startupTries := Suc (p_startupTries (fst s1))\<rparr>, snd s1)"
  have unforced: "start T cfg False s = (Rejected TooManyStartupRetries, s1)"
    using n t1 by (simp add: start_def s1 isUnrecoverable_def)
  have forced: "start T cfg True s = start_promise T cfg ?s2"
    by (simp add: start_def s1)
  have s2: "p_startupTries (fst ?s2) = Suc (p_startupTries (fst s))"
     "filter relevant (effects (snd ?s2)) = filter relevant (effects (snd s)) @ [BroadcastStateChange STARTING]"
     "logFileOpens (snd ?s2) = logFileOpens (snd s1)" "clock (snd ?s2) = clock (snd s1)"
    using t1 e1 by (simp_all add: changeToState_def emit_def)
  show ?thesis
    using unforced o1 s1 start_promise_outcome [of T cfg ?s2]
    by (simp add: forced start_promise_observed [OF c] s2)
qed



lemma two_failed_starts_facts:
  "fst (canBeStarted quiet (run two_failed_starts (initial, example_world NotFound)))"
  "startup_tries_spec (effects (snd (run two_failed_starts (initial, example_world NotFound)))) = 2"
  "p_state (fst (run two_failed_starts (initial, example_world NotFound))) = UNRECOVERABLE"
  "fst (start quiet (example_config 2) True
          (run two_failed_starts (initial, example_world NotFound))) = Resolved ()"
  by (simp_all add: all_defs startup_tries_spec_def)

text \<open>
  C4. Take any trace from a new supervisor after which the entries into \<open>STARTING\<close> since
  the last entry into \<open>RUNNING\<close> number at least \<open>startupMaxRetries\<close>: that many start
  attempts, none of which reached \<open>RUNNING\<close>. Let the first guard of the next \<open>start\<close>
  pass (no child is connected and no process of an earlier run is left), and let nothing
  that runs during its waits change what is observed. Then the unforced \<open>start\<close> is
  rejected with \<open>Too many startup retries\<close> and has neither spawned, nor entered
  \<open>STARTING\<close>, nor counted a try; the forced \<open>start\<close> is not rejected by a guard: it counts
  one more try, enters \<open>STARTING\<close> and, once the log file is open, spawns the child.
\<close>

theorem start_retry_guard:
  "\<forall>(T', op) \<in> set trace. rely T' \<Longrightarrow> effects w = [] \<Longrightarrow>
   startupMaxRetries cfg \<le> startup_tries_spec (effects (snd (run trace (initial, w)))) \<Longrightarrow>
   calm T \<Longrightarrow> fst (canBeStarted T (run trace (initial, w))) \<Longrightarrow>
   fst (start T cfg False (run trace (initial, w))) = Rejected TooManyStartupRetries \<and>
   observed (snd (start T cfg False (run trace (initial, w)))) = observed (run trace (initial, w)) \<and>
   fst (start T cfg True (run trace (initial, w))) \<noteq> Rejected TooManyStartupRetries \<and>
   fst (start T cfg True (run trace (initial, w))) \<noteq> Rejected CannotBeStarted \<and>
   observed (snd (start T cfg True (run trace (initial, w)))) =
     (Suc (p_startupTries (fst (run trace (initial, w)))),
      filter relevant (effects (snd (run trace (initial, w)))) @ BroadcastStateChange STARTING #
        (if logFileOpens (snd (snd (canBeStarted T (run trace (initial, w)))))
              (clock (snd (snd (canBeStarted T (run trace (initial, w))))))
         then [Spawn (nodePath cfg) (nodeArgs cfg)] else []))"
proof -
  assume r: "\<forall>(T', op) \<in> set trace. rely T'" and w: "effects w = []"
    and n: "startupMaxRetries cfg \<le> startup_tries_spec (effects (snd (run trace (initial, w))))"
    and c: "calm T" and can: "fst (canBeStarted T (run trace (initial, w)))"
  have "tries_inv (initial, w)"
    using w by (simp add: tries_inv_def startup_tries_spec_def initial_def)
  with r have "tries_inv (run trace (initial, w))"
    by (rule run_tries_inv)
  with n have "startupMaxRetries cfg \<le> p_startupTries (fst (run trace (initial, w)))"
    by (simp add: tries_inv_def)
  with c can show ?thesis
    by (rule start_guard_counter)
qed

text \<open>
  With \<open>startupMaxRetries = 2\<close>, after two starts whose child exited with code 1 the
  state is \<open>UNRECOVERABLE\<close>; the third unforced start is rejected, the forced one resolves.
\<close>

theorem start_retry_guard_witness:
  "rely quiet \<and> calm quiet \<and> effects (example_world NotFound) = [] \<and>
   fst (canBeStarted quiet (run two_failed_starts (initial, example_world NotFound))) \<and>
   startupMaxRetries (example_config 2)
     \<le> startup_tries_spec (effects (snd (run two_failed_starts (initial, example_world NotFound)))) \<and>
   p_state (fst (run two_failed_starts (initial, example_world NotFound))) = UNRECOVERABLE \<and>
   fst (start quiet (example_config 2) False (run two_failed_starts (initial, example_world NotFound)))
     = Rejected TooManyStartupRetries \<and>
   fst (start quiet (example_config 2) True (run two_failed_starts (initial, example_world NotFound)))
     = Resolved ()"
proof -
  let ?s = "run two_failed_starts (initial, example_world NotFound)"
  have r: "\<forall>(T', op) \<in> set two_failed_starts. rely T'"
    using rely_quiet by (simp add: two_failed_starts_def)
  have w: "effects (example_world NotFound) = []"
    by (simp add: example_world_def)
  have n: "startupMaxRetries (example_config 2) \<le> startup_tries_spec (effects (snd ?s))"
    by (simp add: two_failed_starts_facts example_config_def)
  from start_retry_guard [OF r w n calm_quiet two_failed_starts_facts(1)]
       rely_quiet calm_quiet w n two_failed_starts_facts
  show ?thesis by simp
qed

section \<open>\<open>kill\<close> and \<open>expectNodeUpdate\<close>\<close>

text \<open>
  C5 (what the code does instead). Whenever the child is not dead and the store works,
  \<open>kill\<close> signals the child, stores its pid, enters \<open>STOPPED\<close>, resets and resolves,
  whatever the probes say about the process afterwards and without any wait: the outcome
  is the same for every timing, and the clock has advanced by no more than the probe of
  \<open>_isDead\<close>, the probe that is not awaited and the store access. A process that stays
  alive for ever therefore gives success, not the error \<open>Could not kill cardano-node\<close>.
\<close>

theorem kill_never_waits:
  "\<not> fst (isDead s) \<Longrightarrow> \<forall>t. \<not> storeThrows (snd s) t \<Longrightarrow>
     fst (kill T s) = Resolved () \<and> p_state (fst (snd (kill T s))) = STOPPED \<and>
     clock (snd (snd (kill T s))) \<le> clock (snd s) + 3 \<and> kill T s = kill T' s"
  by (auto simp: kill_def probe_defs emit_def waitForCardanoToExitOrKillIt_def
        storeProcessStates_def storeData_def changeToState_def reset_def kill_catch_def Let_def
      split: option.splits probe.splits prod.splits if_splits)

text \<open>Child 42 is connected and every probe finds it alive; \<open>kill\<close> resolves in \<open>STOPPED\<close>.\<close>

theorem kill_never_waits_witness:
  "\<not> fst (isDead (example_node RUNNING True 0 2, example_world Found)) \<and>
   fst (kill quiet (example_node RUNNING True 0 2, example_world Found)) = Resolved () \<and>
   p_state (fst (snd (kill quiet (example_node RUNNING True 0 2, example_world Found))))
     = STOPPED"
proof -
  have h1: "\<not> fst (isDead (example_node RUNNING True 0 2, example_world Found))"
    by (simp add: probe_defs example_defs)
  have h2: "\<forall>t. \<not> storeThrows (snd (example_node RUNNING True 0 2, example_world Found)) t"
    by (simp add: example_defs)
  from kill_never_waits [OF h1 h2, of quiet] h1 show ?thesis
    by simp
qed

text \<open>
  C6 (what the code does instead). When the child is dead, \<open>kill\<close> changes neither the
  supervisor, nor the record of effects, nor the store, but the promise it returns is
  never settled: it does not resolve.
\<close>

theorem kill_dead_child_never_settles:
  "fst (isDead s) \<Longrightarrow>
     fst (kill T s) = Pending \<and> fst (snd (kill T s)) = fst s \<and>
     effects (snd (snd (kill T s))) = effects (snd s) \<and>
     store (snd (snd (kill T s))) = store (snd s)"
proof -
  assume dead: "fst (isDead s)"
  obtain s1 where s1: "isDead s = (True, s1)"
    using dead by (cases "isDead s") simp
  have "kill T s = (Pending, s1)"
    by (simp add: kill_def s1)
  moreover have "s1 = snd (isDead s)"
    by (simp add: s1)
  ultimately show ?thesis
    by (simp add: isDead_keeps)
qed

text \<open>Child 42 is disconnected and no probe finds it.\<close>

theorem kill_dead_child_never_settles_witness:
  "fst (isDead (example_node STOPPED False 0 2, example_world NotFound)) \<and>
   fst (kill quiet (example_node STOPPED False 0 2, example_world NotFound)) = Pending"
  using kill_dead_child_never_settles
          [of "(example_node STOPPED False 0 2, example_world NotFound)" quiet]
  by (simp add: probe_defs example_defs)

text \<open>
  C8 (what the code does instead). The supervisor is \<open>RUNNING\<close> with child 42 connected,
  the child never exits and the state never becomes \<open>UPDATED\<close>. \<open>expectNodeUpdate\<close>
  enters \<open>UPDATING\<close>, its wait times out, it calls \<open>kill\<close> and returns what \<open>kill\<close>
  returns: success, in state \<open>STOPPED\<close>; no error reaches the caller.
\<close>

theorem expectNodeUpdate_timeout_resolves:
  "fst (expectNodeUpdate quiet (example_node RUNNING True 0 2, example_world Found))
     = Resolved () \<and>
   p_state (fst (snd (expectNodeUpdate quiet (example_node RUNNING True 0 2, example_world Found))))
     = STOPPED \<and>
   effects (snd (snd (expectNodeUpdate quiet (example_node RUNNING True 0 2, example_world Found))))
     = [BroadcastStateChange UPDATING, OnUpdating, NodeKill 42, StoreSet 42,
        BroadcastStateChange STOPPED, OnStopped, LogFileEnd, RemoveAllListeners 42]"
  by (simp add: expectNodeUpdate_def op_defs probe_defs example_defs)

section \<open>The persisted pid\<close>

text \<open>
  C7 (what the code does instead). The supervisor is \<open>RUNNING\<close> with child 42 and nothing
  is stored yet; the child exits with code 1 and is gone. The exit handler enters
  \<open>EXITING\<close>, then \<open>CRASHED\<close>, and resets (the log file is ended, the listeners are
  removed); no pid is written before that reset and the store is still empty after it.
\<close>

theorem exit_resets_without_storing_pid:
  "fst (handleCardanoNodeExit quiet 1 ''SIGSEGV''
          (example_node RUNNING True 0 2, example_world NotFound)) = Resolved () \<and>
   effects (snd (snd (handleCardanoNodeExit quiet 1 ''SIGSEGV''
          (example_node RUNNING True 0 2, example_world NotFound)))) =
     [BroadcastStateChange EXITING, BroadcastStateChange CRASHED,
      OnCrashed (Some (1, ''SIGSEGV'')), LogFileEnd, RemoveAllListeners 42] \<and>
   store (snd (snd (handleCardanoNodeExit quiet 1 ''SIGSEGV''
          (example_node RUNNING True 0 2, example_world NotFound)))) = None"
  by (simp add: handleCardanoNodeExit_def waitUntilReallyDead_def isUnrecoverable_def
      CARDANO_UPDATE_EXIT_CODE_def op_defs probe_defs example_defs)

section \<open>Fault injection\<close>

text \<open>
  C9 (as the code has it). The guard of \<open>setFault\<close> is on the child handle, not on its
  connection. Without a handle (\<open>_node\<close> is not set) \<open>setFault\<close> resolves and changes
  nothing, so nothing is sent. With a handle it first calls \<open>send\<close> with
  \<open>SetFInject [fault, isEnabled]\<close> (as long as what runs during its wait only adds to the
  record of effects, that frame follows the effects recorded before the call), and
  whenever it resolves, the fault is among the faults the daemon confirmed if
  \<open>isEnabled\<close>, and is not among them otherwise.
\<close>

theorem setFault_confirmed:
  "(p_node (fst s) = None \<longrightarrow> setFault T (fault, isEnabled) s = (Resolved (), s)) \<and>
   (p_node (fst s) \<noteq> None \<longrightarrow>
      (setFault T (fault, isEnabled) s = (Resolved (), s') \<longrightarrow>
         (fault \<in> set (p_injectedFaults (fst s'))) = isEnabled) \<and>
      ((\<forall>d \<in> set (T AwaitFault None). extends d) \<longrightarrow>
         (\<exists>es. effects (snd (snd (setFault T (fault, isEnabled) s))) =
                 effects (snd s) @ Send (SetFInject fault isEnabled) # es)))"
proof (intro conjI impI)
  assume "p_node (fst s) = None"
  then show "setFault T (fault, isEnabled) s = (Resolved (), s)"
    by (simp add: setFault_def)
next
  assume n: "p_node (fst s) \<noteq> None"
    and r: "setFault T (fault, isEnabled) s = (Resolved (), s')"
  let ?cond = "\<lambda>x. (let hasFault = (fault \<in> set (p_injectedFaults (fst x)))
                     in if isEnabled then hasFault else \<not> hasFault, x)"
  from n r have "promisedCondition ?cond (T AwaitFault None)
                   (emit [Send (SetFInject fault isEnabled)] s) = (Resolved (), s')"
    by (auto simp: setFault_def Let_def split: option.splits prod.splits outcome.splits)
  then obtain x where "?cond x = (True, s')"
    using promisedCondition_resolved by blast
  then show "(fault \<in> set (p_injectedFaults (fst s'))) = isEnabled"
    by (auto simp: Let_def split: if_splits)
next
  assume n: "p_node (fst s) \<noteq> None" and e: "\<forall>d \<in> set (T AwaitFault None). extends d"
  let ?cond = "\<lambda>x. (let hasFault = (fault \<in> set (p_injectedFaults (fst x)))
                     in if isEnabled then hasFault else \<not> hasFault, x)"
  let ?s1 = "emit [Send (SetFInject fault isEnabled)] s"
  have "\<forall>x. effects (snd (snd (?cond x))) = effects (snd x)" by simp
  from promisedCondition_effects [OF e this, of ?s1]
  obtain es where es: "effects (snd (snd (promisedCondition ?cond (T AwaitFault None) ?s1)))
                       = effects (snd ?s1) @ es"
    by blast
  have "snd (setFault T (fault, isEnabled) s)
        = snd (promisedCondition ?cond (T AwaitFault None) ?s1)"
  proof (cases "p_node (fst s)")
    case None
    with n show ?thesis by simp
  next
    case (Some c)
    then show ?thesis
      unfolding setFault_def
      by (simp only: option.case Let_def fst_conv snd_conv snd_outcome_case)
  qed
  with es show "\<exists>es. effects (snd (snd (setFault T (fault, isEnabled) s))) =
                 effects (snd s) @ Send (SetFInject fault isEnabled) # es"
    by (simp add: emit_def)
qed

text \<open>
  A supervisor with child 42 asks for a fault; during the wait the daemon's \<open>FInjects\<close>
  frame arrives with that fault: the call resolves, the fault is active, and the request
  was sent.
\<close>

theorem setFault_confirmed_witness:
  "p_node (fst (example_node RUNNING True 0 2, example_world Found)) \<noteq> None \<and>
   fst (setFault fault_timing (''FInjIgnoreAPI'', True)
          (example_node RUNNING True 0 2, example_world Found)) = Resolved () \<and>
   ''FInjIgnoreAPI'' \<in> set (p_injectedFaults (fst (snd
       (setFault fault_timing (''FInjIgnoreAPI'', True)
          (example_node RUNNING True 0 2, example_world Found))))) \<and>
   (\<exists>es. effects (snd (snd (setFault fault_timing (''FInjIgnoreAPI'', True)
          (example_node RUNNING True 0 2, example_world Found)))) =
      Send (SetFInject ''FInjIgnoreAPI'' True) # es)"
proof -
  let ?s = "(example_node RUNNING True 0 2, example_world Found)"
  let ?r = "setFault fault_timing (''FInjIgnoreAPI'', True) ?s"
  have n: "p_node (fst ?s) \<noteq> None"
    by (simp add: example_node_def)
  have r: "?r = (Resolved (), snd ?r)"
    by (simp add: setFault_def fault_timing_def handleCardanoNodeMessage_def
          handleCardanoFaultInjectionResponse_def emit_def example_defs Let_def)
  have e: "\<forall>d \<in> set (fault_timing AwaitFault None). extends d"
    by (simp add: fault_timing_def extends_def message_without_port_effects)
  have w: "effects (snd ?s) = []"
    by (simp add: example_world_def)
  from setFault_confirmed [of ?s fault_timing "''FInjIgnoreAPI''" True "snd ?r"] n r e w
  show ?thesis
    by (metis append_Nil fst_conv)
qed

text \<open>
  C9 (as stated) fails: the supervisor still holds the handle of child 42, which has
  exited and is not connected. \<open>setFault\<close> is no no-op: it calls \<open>send\<close> and, no
  confirmation arriving, is rejected.
\<close>

theorem setFault_disconnected_child_counterexample:
  "\<not> isConnected (example_node CRASHED False 1 2) \<and>
   fst (setFault quiet (''FInjIgnoreAPI'', True)
          (example_node CRASHED False 1 2, example_world NotFound)) = Rejected FaultNotInjected \<and>
   effects (snd (snd (setFault quiet (''FInjIgnoreAPI'', True)
          (example_node CRASHED False 1 2, example_world NotFound)))) =
     [Send (SetFInject ''FInjIgnoreAPI'' True)]"
  by (simp add: setFault_def isConnected_def emit_def example_defs Let_def)

section \<open>The getter \<open>tlsConfig\<close>\<close>

text \<open>
  C10. Whatever the heap and whether \<open>_tlsConfig\<close> is \<open>null\<close> or refers to an object of
  it, the getter returns a reference to a new object (one that is not in the heap before
  the call, so not the internal one) and changes no object that existed; the new object
  has the properties of the internal one, with the same values, and no property when
  \<open>_tlsConfig\<close> is \<open>null\<close> (an empty object, not \<open>null\<close>). Assigning any property of the
  returned object leaves every object that existed before the call, the internal config
  among them, as it was.
\<close>

theorem tlsConfig_fresh_copy:
  "wellformed_ref r h \<Longrightarrow>
   (case tlsConfig r h of (a, h') \<Rightarrow>
      a = length h \<and> length h' = Suc (length h) \<and> r \<noteq> JObject a \<and>
      (\<forall>b < length h. h' ! b = h ! b) \<and>
      h' ! a = (case r of JObject b \<Rightarrow> h ! b | JNull \<Rightarrow> Map.empty
                | JNumber n \<Rightarrow> Map.empty | JString x \<Rightarrow> Map.empty) \<and>
      (\<forall>k v. \<forall>b < length h. write_property a k v h' ! b = h ! b))"
  by (cases r)
     (auto simp: tlsConfig_def new_object_def Object_assign_def write_property_def
        wellformed_ref_def nth_append)

text \<open>The getter on a stored config, a write to the copy, and the getter on \<open>null\<close>.\<close>

theorem tlsConfig_fresh_copy_witness:
  "wellformed_ref (JObject 0) [tlsObject example_tls] \<and> wellformed_ref JNull [] \<and>
   fst (tlsConfig (JObject 0) [tlsObject example_tls]) = 1 \<and>
   snd (tlsConfig (JObject 0) [tlsObject example_tls]) ! 1 = tlsObject example_tls \<and>
   write_property 1 ''port'' (JNumber 1) (snd (tlsConfig (JObject 0) [tlsObject example_tls])) ! 0
     = tlsObject example_tls \<and>
   snd (tlsConfig JNull []) ! 0 = Map.empty"
proof -
  have w: "wellformed_ref (JObject 0) [tlsObject example_tls]" "wellformed_ref JNull []"
    by (simp_all add: wellformed_ref_def)
  from tlsConfig_fresh_copy [OF w(1)] tlsConfig_fresh_copy [OF w(2)] w
  show ?thesis
    by (auto split: prod.splits)
qed

end
